theory Spec2Isabelle
  imports Main "HOL-Library.Word"
begin

section \<open>Data model of \<open>dtw_openmp.c\<close>\<close>

text \<open>
  \<open>size_t\<close> is the unsigned 64-bit integer of an LP64 platform: addition and subtraction
  wrap around modulo \<open>2 ^ 64\<close>, comparisons are unsigned, \<open>sizeof(size_t)\<close> is 8.
\<close>

type_synonym size_t = "64 word"

definition sizeof_size_t :: size_t where
  "sizeof_size_t = 8"

text \<open>
  \<open>DTWBlock\<close>: the rectangular region, rows \<open>rb .. re - 1\<close> and columns \<open>cb .. ce - 1\<close>;
  \<open>re = 0\<close> and \<open>ce = 0\<close> stand for "through the end". Only these four fields are read or
  written by this file.
\<close>

record DTWBlock =
  rb :: size_t
  re :: size_t
  cb :: size_t
  ce :: size_t

text \<open>\<open>DTWSettings\<close> is passed through to the metric; only \<open>use_ssize_t\<close> is read here.\<close>

record DTWSettings =
  use_ssize_t :: bool

text \<open>
  Undefined behaviour of the C program is a value of the model: a write or read through a
  null pointer, and an access past the end of a heap block the function allocated itself.
\<close>

datatype fault = NullDeref | OutOfBounds

text \<open>
  A \<open>size_t *\<close> obtained from \<open>malloc\<close>: \<open>None\<close> is the null pointer, \<open>Some xs\<close> a block
  holding \<open>length xs\<close> entries. Whether an allocation succeeds is decided by the
  environment, so it is an argument. The byte count is a \<open>size_t\<close> (the multiplication
  in the caller wraps); the block holds as many whole entries as fit. C leaves the content
  of a fresh block unspecified; the model fills it with zeros.
\<close>

type_synonym size_t_ptr = "size_t list option"

definition malloc :: "bool \<Rightarrow> size_t \<Rightarrow> size_t_ptr" where
  "malloc ok bytes =
     (if ok then Some (replicate (unat bytes div unat sizeof_size_t) 0) else None)"

fun store :: "size_t_ptr \<Rightarrow> size_t \<Rightarrow> size_t \<Rightarrow> fault + size_t_ptr" where
  "store None i v = Inl NullDeref"
| "store (Some xs) i v =
     (if unat i < length xs then Inr (Some (xs[unat i := v])) else Inl OutOfBounds)"

fun load :: "size_t_ptr \<Rightarrow> size_t \<Rightarrow> fault + size_t" where
  "load None i = Inl NullDeref"
| "load (Some xs) i = (if unat i < length xs then Inr (xs ! unat i) else Inl OutOfBounds)"

text \<open>
  The out-parameters \<open>cbs\<close>, \<open>rls\<close> and \<open>length\<close> of \<open>dtw_distances_prepare\<close> are the
  addresses of locals of the caller (\<open>&cbs\<close>, \<open>&rls\<close>, \<open>&length\<close> in all four callers), so
  the tests \<open>length == 0\<close>, \<open>!cbs\<close> and \<open>!rls\<close>, which compare these addresses with null,
  are never true.
\<close>

definition out_param_is_null :: bool where
  "out_param_is_null = False"

section \<open>\<open>dtw_distances_prepare\<close>\<close>

text \<open>The planning loop, lines 65 to 75: \<open>r\<close> runs from \<open>rb\<close> to \<open>re - 1\<close>.\<close>

function prepare_loop ::
  "DTWBlock \<Rightarrow> size_t \<Rightarrow> size_t \<Rightarrow> size_t \<Rightarrow> size_t_ptr \<Rightarrow> size_t_ptr
   \<Rightarrow> fault + (size_t_ptr \<times> size_t_ptr)" where
  "prepare_loop block r rs ir cbs rls =
     (if r < re block then
        (let cb' = (if r + 1 > cb block then r + 1 else cb block) in
         case store cbs ir cb' of
           Inl f \<Rightarrow> Inl f
         | Inr cbs' \<Rightarrow>
             (case store rls ir rs of
                Inl f \<Rightarrow> Inl f
              | Inr rls' \<Rightarrow>
                  prepare_loop block (r + 1) (rs + (ce block - cb')) (ir + 1) cbs' rls'))
      else Inr (cbs, rls))"
  by pat_completeness auto
termination
proof (relation "measure (\<lambda>(block, r, rs, ir, cbs, rls). unat (re block) - unat r)")
  show "wf (measure (\<lambda>(block, r, rs, ir, cbs, rls). unat (re block) - unat r))"
    by simp
next
  fix block :: DTWBlock and r rs ir :: size_t and cbs rls :: size_t_ptr
    and x :: size_t and x2 x2a :: size_t_ptr
  assume "r < re block"
  then have lt: "unat r < unat (re block)"
    by (simp add: word_less_nat_alt)
  have "unat (re block) < 2 ^ LENGTH(64)"
    by (rule unsigned_less)
  with lt have "unat r + unat (1 :: size_t) < 2 ^ LENGTH(64)"
    by simp
  then have "unat (r + 1) = unat r + unat (1 :: size_t)"
    by (simp only: unat_add_lem)
  then have "unat (r + 1) = Suc (unat r)"
    by simp
  with lt show "((block, r + 1, rs + (ce block - x), ir + 1, x2, x2a),
                    (block, r, rs, ir, cbs, rls))
      \<in> measure (\<lambda>(block, r, rs, ir, cbs, rls). unat (re block) - unat r)"
    by simp
qed

declare prepare_loop.simps [simp del]

text \<open>What \<open>dtw_distances_prepare\<close> hands back: the return code, the block as it leaves it,
  the two sequences, the value stored in \<open>*length\<close>, and the number of heap blocks it has
  allocated and not released.\<close>

record prepared =
  rc :: int
  p_block :: DTWBlock
  p_cbs :: size_t_ptr
  p_rls :: size_t_ptr
  p_length :: size_t
  p_live :: nat

text \<open>
  \<open>dtw_distances_prepare\<close>, lines 26 to 77. The external \<open>dtw_distances_length\<close> is an
  argument, a function of the block, the series count and the flag that leaves the block as
  it is; \<open>mallocs\<close> says whether the first and the second allocation succeed.
\<close>

definition dtw_distances_prepare ::
  "(DTWBlock \<Rightarrow> size_t \<Rightarrow> bool \<Rightarrow> size_t) \<Rightarrow> bool \<times> bool
   \<Rightarrow> DTWBlock \<Rightarrow> size_t \<Rightarrow> DTWSettings \<Rightarrow> fault + prepared" where
  "dtw_distances_prepare dtw_distances_length mallocs block nb_series settings =
     (let length0 = dtw_distances_length block nb_series (use_ssize_t settings) in
      if out_param_is_null then
        Inr \<lparr>rc = 1, p_block = block, p_cbs = None, p_rls = None,
             p_length = length0, p_live = 0\<rparr>
      else
        let block1 = (if re block = 0 then block\<lparr>re := nb_series\<rparr> else block);
            block2 = (if ce block1 = 0 then block1\<lparr>ce := nb_series\<rparr> else block1)
        in
        if re block2 \<le> rb block2 then
          Inr \<lparr>rc = 1, p_block = block2, p_cbs = None, p_rls = None,
               p_length = 0, p_live = 0\<rparr>
        else if ce block2 \<le> cb block2 then
          Inr \<lparr>rc = 1, p_block = block2, p_cbs = None, p_rls = None,
               p_length = 0, p_live = 0\<rparr>
        else
          let cbs = malloc (fst mallocs) (sizeof_size_t * (ce block2 - cb block2));
              live1 = (if cbs = None then 0 else 1)
          in
          if out_param_is_null then
            Inr \<lparr>rc = 1, p_block = block2, p_cbs = cbs, p_rls = None,
                 p_length = 0, p_live = live1\<rparr>
          else
            let rls = malloc (snd mallocs) (sizeof_size_t * (ce block2 - cb block2));
                live2 = live1 + (if rls = None then 0 else 1)
            in
            if out_param_is_null then
              Inr \<lparr>rc = 1, p_block = block2, p_cbs = cbs, p_rls = rls,
                   p_length = 0, p_live = live2\<rparr>
            else
              (case prepare_loop block2 (rb block2) 0 0 cbs rls of
                 Inl f \<Rightarrow> Inl f
               | Inr (cbs', rls') \<Rightarrow>
                   Inr \<lparr>rc = 0, p_block = block2, p_cbs = cbs', p_rls = rls',
                        p_length = length0, p_live = live2\<rparr>))"

section \<open>The four computers\<close>

text \<open>
  A \<open>seq_t *\<close> is the address of an element, counted in elements, so \<open>&matrix[k]\<close> is
  \<open>matrix + k\<close>. The arrays \<open>ptrs\<close> and \<open>lengths\<close> and the buffer \<open>output\<close> belong to the
  caller, who alone knows their sizes: they are functions of the index. The values of type
  \<open>seq_t\<close> are whatever the metric returns (\<open>'v\<close>). The metrics \<open>dtw_distance\<close> and
  \<open>dtw_distance_ndim\<close> are external and are arguments, functions of what they are given.
\<close>

type_synonym seq_ptr = size_t

text \<open>One assignment \<open>output[k] = value\<close> of the run: the index \<open>k\<close>, the row and the column.\<close>

type_synonym write_ev = "size_t \<times> size_t \<times> size_t"

text \<open>
  The inner loop, \<open>for (c = cbs[r_i]; c < block->ce; c++)\<close>, with the metric call of the
  variant as \<open>val r c\<close>. It carries the output buffer and the list of assignments made so
  far, in the order they are made; \<open>rls[r_i]\<close> is read at each assignment.
\<close>

function cols_loop ::
  "(size_t \<Rightarrow> size_t \<Rightarrow> 'v) \<Rightarrow> DTWBlock \<Rightarrow> size_t_ptr \<Rightarrow> size_t \<Rightarrow> size_t \<Rightarrow> size_t \<Rightarrow> size_t
   \<Rightarrow> (size_t \<Rightarrow> 'v) \<times> write_ev list \<Rightarrow> fault + ((size_t \<Rightarrow> 'v) \<times> write_ev list)" where
  "cols_loop val block rls r_i r c c_i st =
     (if c < ce block then
        (case load rls r_i of
           Inl f \<Rightarrow> Inl f
         | Inr base \<Rightarrow>
             cols_loop val block rls r_i r (c + 1) (c_i + 1)
               ((fst st)(base + c_i := val r c), snd st @ [(base + c_i, r, c)]))
      else Inr st)"
  by pat_completeness auto
termination
proof (relation "measure (\<lambda>(val, block, rls, r_i, r, c, c_i, st). unat (ce block) - unat c)")
  show "wf (measure (\<lambda>(val :: size_t \<Rightarrow> size_t \<Rightarrow> 'v, block, rls :: size_t_ptr, r_i :: size_t,
      r :: size_t, c, c_i :: size_t, st :: (size_t \<Rightarrow> 'v) \<times> write_ev list).
      unat (ce block) - unat c))"
    by simp
next
  fix val :: "size_t \<Rightarrow> size_t \<Rightarrow> 'v" and block :: DTWBlock and rls :: size_t_ptr
    and r_i r c c_i x2 :: size_t and st :: "(size_t \<Rightarrow> 'v) \<times> write_ev list"
  assume "c < ce block"
  then have lt: "unat c < unat (ce block)"
    by (simp add: word_less_nat_alt)
  have "unat (ce block) < 2 ^ LENGTH(64)"
    by (rule unsigned_less)
  with lt have "unat c + unat (1 :: size_t) < 2 ^ LENGTH(64)"
    by simp
  then have "unat (c + 1) = unat c + unat (1 :: size_t)"
    by (simp only: unat_add_lem)
  then have "unat (c + 1) = Suc (unat c)"
    by simp
  with lt show "((val, block, rls, r_i, r, c + 1, c_i + 1,
                  (fst st)(x2 + c_i := val r c), snd st @ [(x2 + c_i, r, c)]),
                 (val, block, rls, r_i, r, c, c_i, st))
      \<in> measure (\<lambda>(val, block, rls, r_i, r, c, c_i, st). unat (ce block) - unat c)"
    by simp
qed

declare cols_loop.simps [simp del]

text \<open>
  The outer loop, \<open>for (r_i = 0; r_i < (block->re - block->rb); r_i++)\<close>. OpenMP hands the
  rows to threads in any order; the model runs them in increasing order. Each row reads
  \<open>cbs\<close> and \<open>rls\<close> only and writes \<open>output\<close> only.
\<close>

function rows_loop ::
  "(size_t \<Rightarrow> size_t \<Rightarrow> 'v) \<Rightarrow> DTWBlock \<Rightarrow> size_t_ptr \<Rightarrow> size_t_ptr \<Rightarrow> size_t
   \<Rightarrow> (size_t \<Rightarrow> 'v) \<times> write_ev list \<Rightarrow> fault + ((size_t \<Rightarrow> 'v) \<times> write_ev list)" where
  "rows_loop val block cbs rls r_i st =
     (if r_i < re block - rb block then
        (case load cbs r_i of
           Inl f \<Rightarrow> Inl f
         | Inr c0 \<Rightarrow>
             (case cols_loop val block rls r_i (rb block + r_i) c0 0 st of
                Inl f \<Rightarrow> Inl f
              | Inr st' \<Rightarrow> rows_loop val block cbs rls (r_i + 1) st'))
      else Inr st)"
  by pat_completeness auto
termination
proof (relation "measure (\<lambda>(val, block, cbs, rls, r_i, st).
    unat (re block - rb block) - unat r_i)")
  show "wf (measure (\<lambda>(val :: size_t \<Rightarrow> size_t \<Rightarrow> 'v, block, cbs :: size_t_ptr,
      rls :: size_t_ptr, r_i, st :: (size_t \<Rightarrow> 'v) \<times> write_ev list).
      unat (re block - rb block) - unat r_i))"
    by simp
next
  fix val :: "size_t \<Rightarrow> size_t \<Rightarrow> 'v" and block :: DTWBlock and cbs rls :: size_t_ptr
    and r_i x2 :: size_t and st x2a :: "(size_t \<Rightarrow> 'v) \<times> write_ev list"
  assume "r_i < re block - rb block"
  then have lt: "unat r_i < unat (re block - rb block)"
    by (simp add: word_less_nat_alt)
  have "unat (re block - rb block) < 2 ^ LENGTH(64)"
    by (rule unsigned_less)
  with lt have "unat r_i + unat (1 :: size_t) < 2 ^ LENGTH(64)"
    by simp
  then have "unat (r_i + 1) = unat r_i + unat (1 :: size_t)"
    by (simp only: unat_add_lem)
  then have "unat (r_i + 1) = Suc (unat r_i)"
    by simp
  with lt show "((val, block, cbs, rls, r_i + 1, x2a), (val, block, cbs, rls, r_i, st))
      \<in> measure (\<lambda>(val, block, cbs, rls, r_i, st). unat (re block - rb block) - unat r_i)"
    by simp
qed

declare rows_loop.simps [simp del]

text \<open>\<open>free\<close>: the number of heap blocks it releases (\<open>free(NULL)\<close> does nothing).\<close>

definition free :: "size_t_ptr \<Rightarrow> nat" where
  "free p = (case p of None \<Rightarrow> 0 | Some xs \<Rightarrow> 1)"

text \<open>
  What a caller has after the call: the returned \<open>size_t\<close>, the output buffer, the block it
  passed by address, and (not visible to a C caller, kept for the proofs) the assignments to
  \<open>output\<close> in order and the number of planner sequences still allocated.
\<close>

record 'v outcome =
  o_ret :: size_t
  o_output :: "size_t \<Rightarrow> 'v"
  o_block :: DTWBlock
  o_writes :: "write_ev list"
  o_live :: nat

text \<open>The body shared by the four computers after the metric call is fixed.\<close>

definition distances_parallel ::
  "(DTWBlock \<Rightarrow> size_t \<Rightarrow> bool \<Rightarrow> size_t) \<Rightarrow> bool \<times> bool \<Rightarrow> (size_t \<Rightarrow> size_t \<Rightarrow> 'v)
   \<Rightarrow> size_t \<Rightarrow> (size_t \<Rightarrow> 'v) \<Rightarrow> DTWBlock \<Rightarrow> DTWSettings \<Rightarrow> fault + 'v outcome" where
  "distances_parallel dtw_distances_length mallocs val nb output block settings =
     (case dtw_distances_prepare dtw_distances_length mallocs block nb settings of
        Inl f \<Rightarrow> Inl f
      | Inr p \<Rightarrow>
          if rc p \<noteq> 0 then
            Inr \<lparr>o_ret = 0, o_output = output, o_block = p_block p, o_writes = [],
                 o_live = p_live p\<rparr>
          else
            (case rows_loop val (p_block p) (p_cbs p) (p_rls p) 0 (output, []) of
               Inl f \<Rightarrow> Inl f
             | Inr st \<Rightarrow>
                 Inr \<lparr>o_ret = p_length p, o_output = fst st, o_block = p_block p,
                      o_writes = snd st,
                      o_live = p_live p - free (p_cbs p) - free (p_rls p)\<rparr>))"

text \<open>\<open>dtw_distances_ptrs_parallel\<close>, lines 85 to 120.\<close>

definition dtw_distances_ptrs_parallel ::
  "(DTWBlock \<Rightarrow> size_t \<Rightarrow> bool \<Rightarrow> size_t) \<Rightarrow> bool \<times> bool
   \<Rightarrow> (seq_ptr \<Rightarrow> size_t \<Rightarrow> seq_ptr \<Rightarrow> size_t \<Rightarrow> DTWSettings \<Rightarrow> 'v)
   \<Rightarrow> (size_t \<Rightarrow> seq_ptr) \<Rightarrow> size_t \<Rightarrow> (size_t \<Rightarrow> size_t) \<Rightarrow> (size_t \<Rightarrow> 'v)
   \<Rightarrow> DTWBlock \<Rightarrow> DTWSettings \<Rightarrow> fault + 'v outcome" where
  "dtw_distances_ptrs_parallel dtw_distances_length mallocs dtw_distance
       ptrs nb_ptrs lengths output block settings =
     distances_parallel dtw_distances_length mallocs
       (\<lambda>r c. dtw_distance (ptrs r) (lengths r) (ptrs c) (lengths c) settings)
       nb_ptrs output block settings"

text \<open>\<open>dtw_distances_ndim_ptrs_parallel\<close>, lines 128 to 157.\<close>

definition dtw_distances_ndim_ptrs_parallel ::
  "(DTWBlock \<Rightarrow> size_t \<Rightarrow> bool \<Rightarrow> size_t) \<Rightarrow> bool \<times> bool
   \<Rightarrow> (seq_ptr \<Rightarrow> size_t \<Rightarrow> seq_ptr \<Rightarrow> size_t \<Rightarrow> int \<Rightarrow> DTWSettings \<Rightarrow> 'v)
   \<Rightarrow> (size_t \<Rightarrow> seq_ptr) \<Rightarrow> size_t \<Rightarrow> (size_t \<Rightarrow> size_t) \<Rightarrow> int \<Rightarrow> (size_t \<Rightarrow> 'v)
   \<Rightarrow> DTWBlock \<Rightarrow> DTWSettings \<Rightarrow> fault + 'v outcome" where
  "dtw_distances_ndim_ptrs_parallel dtw_distances_length mallocs dtw_distance_ndim
       ptrs nb_ptrs lengths ndim output block settings =
     distances_parallel dtw_distances_length mallocs
       (\<lambda>r c. dtw_distance_ndim (ptrs r) (lengths r) (ptrs c) (lengths c) ndim settings)
       nb_ptrs output block settings"

text \<open>\<open>dtw_distances_matrix_parallel\<close>, lines 165 to 191.\<close>

definition dtw_distances_matrix_parallel ::
  "(DTWBlock \<Rightarrow> size_t \<Rightarrow> bool \<Rightarrow> size_t) \<Rightarrow> bool \<times> bool
   \<Rightarrow> (seq_ptr \<Rightarrow> size_t \<Rightarrow> seq_ptr \<Rightarrow> size_t \<Rightarrow> DTWSettings \<Rightarrow> 'v)
   \<Rightarrow> seq_ptr \<Rightarrow> size_t \<Rightarrow> size_t \<Rightarrow> (size_t \<Rightarrow> 'v)
   \<Rightarrow> DTWBlock \<Rightarrow> DTWSettings \<Rightarrow> fault + 'v outcome" where
  "dtw_distances_matrix_parallel dtw_distances_length mallocs dtw_distance
       matrix nb_rows nb_cols output block settings =
     distances_parallel dtw_distances_length mallocs
       (\<lambda>r c. dtw_distance (matrix + r * nb_cols) nb_cols (matrix + c * nb_cols) nb_cols
                 settings)
       nb_rows output block settings"

text \<open>\<open>dtw_distances_ndim_matrix_parallel\<close>, lines 199 to 227; the \<open>int\<close> \<open>ndim\<close> is converted
  to \<open>size_t\<close> in the index.\<close>

definition dtw_distances_ndim_matrix_parallel ::
  "(DTWBlock \<Rightarrow> size_t \<Rightarrow> bool \<Rightarrow> size_t) \<Rightarrow> bool \<times> bool
   \<Rightarrow> (seq_ptr \<Rightarrow> size_t \<Rightarrow> seq_ptr \<Rightarrow> size_t \<Rightarrow> int \<Rightarrow> DTWSettings \<Rightarrow> 'v)
   \<Rightarrow> seq_ptr \<Rightarrow> size_t \<Rightarrow> size_t \<Rightarrow> int \<Rightarrow> (size_t \<Rightarrow> 'v)
   \<Rightarrow> DTWBlock \<Rightarrow> DTWSettings \<Rightarrow> fault + 'v outcome" where
  "dtw_distances_ndim_matrix_parallel dtw_distances_length mallocs dtw_distance_ndim
       matrix nb_rows nb_cols ndim output block settings =
     distances_parallel dtw_distances_length mallocs
       (\<lambda>r c. dtw_distance_ndim (matrix + r * nb_cols * word_of_int ndim) nb_cols
                 (matrix + c * nb_cols * word_of_int ndim) nb_cols ndim settings)
       nb_rows output block settings"

section \<open>The length collaborator\<close>

text \<open>The region after the zero-sentinel defaulting of lines 35 to 40.\<close>

definition correct_block :: "DTWBlock \<Rightarrow> size_t \<Rightarrow> DTWBlock" where
  "correct_block block nb_series =
     block\<lparr>re := (if re block = 0 then nb_series else re block),
           ce := (if ce block = 0 then nb_series else ce block)\<rparr>"

text \<open>
  The number of columns a row visits, \<open>max(0, col_end - max(r + 1, col_begin))\<close>, and the
  number of pairs of a region, in unbounded arithmetic.
\<close>

definition row_count :: "DTWBlock \<Rightarrow> nat \<Rightarrow> nat" where
  "row_count block r = unat (ce block) - max (r + 1) (unat (cb block))"

definition pair_count :: "DTWBlock \<Rightarrow> nat" where
  "pair_count block = sum_list (map (row_count block) [unat (rb block) ..< unat (re block)])"

text \<open>
  Modelled from the spec: \<open>dtw_distances_length\<close> (the spec's \<open>region_length\<close>) is not in
  the source file. The spec gives it the region and the series count and says it
  "computes the exact total visited-pair count for a normalized region", the size mode
  being a pass-through flag: the count of the region normalized against the series count,
  stored in a \<open>size_t\<close>.
\<close>

definition region_length :: "DTWBlock \<Rightarrow> size_t \<Rightarrow> bool \<Rightarrow> size_t" where
  "region_length block nb_series size_mode = of_nat (pair_count (correct_block block nb_series))"

section \<open>Notions used to state the properties\<close>

text \<open>The emptiness test of lines 41 to 48, on the region after defaulting.\<close>

definition empty_region :: "DTWBlock \<Rightarrow> bool" where
  "empty_region b = (re b \<le> rb b \<or> ce b \<le> cb b)"

text \<open>The first column of row \<open>r\<close>, as line 66 computes it in \<open>size_t\<close>.\<close>

definition col_start :: "DTWBlock \<Rightarrow> size_t \<Rightarrow> size_t" where
  "col_start b r = (if r + 1 > cb b then r + 1 else cb b)"

text \<open>A list of assignments \<open>output[k] = val r c\<close> applied to a buffer, first to last.\<close>

fun apply_writes ::
  "(size_t \<Rightarrow> size_t \<Rightarrow> 'v) \<Rightarrow> write_ev list \<Rightarrow> (size_t \<Rightarrow> 'v) \<Rightarrow> size_t \<Rightarrow> 'v" where
  "apply_writes val [] out = out"
| "apply_writes val ((k, r, c) # evs) out = apply_writes val evs (out(k := val r c))"

text \<open>
  What a call may do to the caller's state: the block is left with its zero ends replaced
  by the series count, no planner sequence stays allocated, and the output buffer differs
  from the one passed in only at the indices assigned. Says nothing of a call that ends in
  undefined behaviour.
\<close>

definition frame_ok ::
  "DTWBlock \<Rightarrow> size_t \<Rightarrow> (size_t \<Rightarrow> 'v) \<Rightarrow> fault + 'v outcome \<Rightarrow> bool" where
  "frame_ok block nb output result =
     (case result of
        Inl f \<Rightarrow> True
      | Inr res \<Rightarrow>
          o_block res = correct_block block nb \<and> o_live res = 0 \<and>
          (\<forall>k. k \<notin> fst ` set (o_writes res) \<longrightarrow> o_output res k = output k))"

text \<open>
  The number of rows the planning loop runs over, and the number of entries lines 50 and
  56 allocate for each sequence.
\<close>

definition rows_of :: "DTWBlock \<Rightarrow> nat" where
  "rows_of b = unat (re b) - unat (rb b)"

definition capacity :: "DTWBlock \<Rightarrow> nat" where
  "capacity b = unat (sizeof_size_t * (ce b - cb b)) div unat sizeof_size_t"

text \<open>
  The pairs \<open>(cbs[ir], rls[ir])\<close> the planning loop computes for \<open>n\<close> rows from row \<open>r\<close> on,
  the running offset being \<open>rs\<close>.
\<close>

fun plan :: "DTWBlock \<Rightarrow> size_t \<Rightarrow> size_t \<Rightarrow> nat \<Rightarrow> (size_t \<times> size_t) list" where
  "plan b r rs 0 = []"
| "plan b r rs (Suc n) =
     (col_start b r, rs) # plan b (r + 1) (rs + (ce b - col_start b r)) n"

text \<open>
  The assignments of one row: \<open>n\<close> columns from column \<open>c\<close> on, stored from index
  \<open>base + c_i\<close> on.
\<close>

fun row_events :: "size_t \<Rightarrow> size_t \<Rightarrow> size_t \<Rightarrow> size_t \<Rightarrow> nat \<Rightarrow> write_ev list" where
  "row_events base r c c_i 0 = []"
| "row_events base r c c_i (Suc n) = (base + c_i, r, c) # row_events base r (c + 1) (c_i + 1) n"

text \<open>
  The assignments of the row at position \<open>i\<close> of the region, read off the two sequences as
  the loops of lines 104 to 115 do, and those of a whole run on a region the planner
  completes on, in the order of the rows.
\<close>

definition row_writes :: "DTWBlock \<Rightarrow> size_t list \<Rightarrow> size_t list \<Rightarrow> nat \<Rightarrow> write_ev list" where
  "row_writes b cs ls i =
     row_events (ls ! i) (rb b + of_nat i) (cs ! i) 0 (unat (ce b) - unat (cs ! i))"

definition run_writes :: "DTWBlock \<Rightarrow> write_ev list" where
  "run_writes b =
     concat (map (row_writes b (map fst (plan b (rb b) 0 (rows_of b)))
                               (map snd (plan b (rb b) 0 (rows_of b))))
                 [0 ..< rows_of b])"

text \<open>
  The same assignments, row by row along the planning loop: \<open>n\<close> rows from row \<open>r\<close> on, the
  offset of the first being \<open>rs\<close>.
\<close>

fun plan_events :: "DTWBlock \<Rightarrow> size_t \<Rightarrow> size_t \<Rightarrow> nat \<Rightarrow> write_ev list" where
  "plan_events b r rs 0 = []"
| "plan_events b r rs (Suc n) =
     row_events rs r (col_start b r) 0 (unat (ce b) - unat (col_start b r))
     @ plan_events b (r + 1) (rs + (ce b - col_start b r)) n"

text \<open>
  What the design asks for, in unbounded arithmetic: row \<open>r\<close> visits the columns from
  \<open>max (r + 1) cb\<close> to \<open>ce - 1\<close> in increasing order, and the pairs of the region, taken row
  after row, go to consecutive slots of the buffer from slot \<open>k\<close> on.
\<close>

definition pairs_of_row :: "DTWBlock \<Rightarrow> nat \<Rightarrow> (nat \<times> nat) list" where
  "pairs_of_row b r = map (\<lambda>c. (r, c)) [max (r + 1) (unat (cb b)) ..< unat (ce b)]"

definition region_pairs :: "DTWBlock \<Rightarrow> (nat \<times> nat) list" where
  "region_pairs b = concat (map (pairs_of_row b) [unat (rb b) ..< unat (re b)])"

fun expected :: "DTWBlock \<Rightarrow> nat \<Rightarrow> nat \<Rightarrow> nat \<Rightarrow> write_ev list" where
  "expected b k r 0 = []"
| "expected b k r (Suc n) =
     map (\<lambda>j. (of_nat (k + j), of_nat r, of_nat (max (r + 1) (unat (cb b)) + j)))
       [0 ..< row_count b r]
     @ expected b (k + row_count b r) (Suc r) n"

text \<open>
  How the planner ends on a region that is not empty: the fault it runs into, if any. A
  null \<open>cbs\<close> is written through at \<open>ir = 0\<close>; a \<open>cbs\<close> of no entries is overrun there; a null
  \<open>rls\<close> is written through next; and with both sequences allocated the loop overruns
  them when the rows are more than their entries.
\<close>

definition planner_fault :: "bool \<times> bool \<Rightarrow> DTWBlock \<Rightarrow> fault option" where
  "planner_fault mallocs b =
     (if \<not> fst mallocs then Some NullDeref
      else if capacity b = 0 then Some OutOfBounds
      else if \<not> snd mallocs then Some NullDeref
      else if rows_of b \<le> capacity b then None
      else Some OutOfBounds)"

text \<open>
  What the preparation step and a computer come to, as functions of the value \<open>n\<close> that
  \<open>dtw_distances_length\<close> returned, of the two allocations and of the region \<open>b\<close> after
  defaulting; \<open>val r c\<close> is the metric call for the pair \<open>(r, c)\<close>.
\<close>

definition prepare_result :: "size_t \<Rightarrow> bool \<times> bool \<Rightarrow> DTWBlock \<Rightarrow> fault + prepared" where
  "prepare_result n mallocs b =
     (if empty_region b then
        Inr \<lparr>rc = 1, p_block = b, p_cbs = None, p_rls = None, p_length = 0, p_live = 0\<rparr>
      else
        case planner_fault mallocs b of
          Some f \<Rightarrow> Inl f
        | None \<Rightarrow>
            Inr \<lparr>rc = 0, p_block = b,
                 p_cbs = Some (map fst (plan b (rb b) 0 (rows_of b))
                               @ replicate (capacity b - rows_of b) 0),
                 p_rls = Some (map snd (plan b (rb b) 0 (rows_of b))
                               @ replicate (capacity b - rows_of b) 0),
                 p_length = n, p_live = 2\<rparr>)"

definition run_result ::
  "size_t \<Rightarrow> bool \<times> bool \<Rightarrow> (size_t \<Rightarrow> size_t \<Rightarrow> 'v) \<Rightarrow> (size_t \<Rightarrow> 'v) \<Rightarrow> DTWBlock
   \<Rightarrow> fault + 'v outcome" where
  "run_result n mallocs val output b =
     (if empty_region b then
        Inr \<lparr>o_ret = 0, o_output = output, o_block = b, o_writes = [], o_live = 0\<rparr>
      else
        case planner_fault mallocs b of
          Some f \<Rightarrow> Inl f
        | None \<Rightarrow>
            Inr \<lparr>o_ret = n, o_output = apply_writes val (run_writes b) output, o_block = b,
                 o_writes = run_writes b, o_live = 0\<rparr>)"

section \<open>Basic facts\<close>

lemma correct_block_begins [simp]:
  "rb (correct_block block nb) = rb block"
  "cb (correct_block block nb) = cb block"
  by (simp_all add: correct_block_def)

lemma correct_block_ends:
  "re (correct_block block nb) = (if re block = 0 then nb else re block)"
  "ce (correct_block block nb) = (if ce block = 0 then nb else ce block)"
  by (simp_all add: correct_block_def)

lemmas entry_defs = dtw_distances_ptrs_parallel_def dtw_distances_ndim_ptrs_parallel_def
  dtw_distances_matrix_parallel_def dtw_distances_ndim_matrix_parallel_def

lemmas eval_defs = distances_parallel_def dtw_distances_prepare_def out_param_is_null_def
  malloc_def sizeof_size_t_def free_def prepare_loop.simps rows_loop.simps cols_loop.simps

lemma upt_to_numeral:
  "[m..<numeral k] = (if m < numeral k then m # [Suc m..<numeral k] else [])"
  by (rule upt_rec)

lemma correct_block_steps:
  "(if ce (if re block = 0 then block\<lparr>re := nb\<rparr> else block) = 0
    then (if re block = 0 then block\<lparr>re := nb\<rparr> else block)\<lparr>ce := nb\<rparr>
    else (if re block = 0 then block\<lparr>re := nb\<rparr> else block)) = correct_block block nb"
  by (cases block) (simp add: correct_block_def)

text \<open>\<open>dtw_distances_prepare\<close> without its dead branches.\<close>

lemma prepare_unfold:
  "dtw_distances_prepare len mallocs block nb settings =
     (let b = correct_block block nb in
      if empty_region b then
        Inr \<lparr>rc = 1, p_block = b, p_cbs = None, p_rls = None, p_length = 0, p_live = 0\<rparr>
      else
        let cbs = malloc (fst mallocs) (sizeof_size_t * (ce b - cb b));
            rls = malloc (snd mallocs) (sizeof_size_t * (ce b - cb b))
        in case prepare_loop b (rb b) 0 0 cbs rls of
             Inl f \<Rightarrow> Inl f
           | Inr (cbs', rls') \<Rightarrow>
               Inr \<lparr>rc = 0, p_block = b, p_cbs = cbs', p_rls = rls',
                    p_length = len block nb (use_ssize_t settings),
                    p_live = free cbs + free rls\<rparr>)"
proof -
  have live: "(if p = None then 0 else 1) = free p" for p :: size_t_ptr
    by (simp add: free_def split: option.splits)
  show ?thesis
    unfolding dtw_distances_prepare_def out_param_is_null_def Let_def if_False
      correct_block_steps live empty_region_def
    by (simp)
qed

section \<open>The size of the planner sequences\<close>

text \<open>
  C3. The planner is to allocate \<open>cbs\<close> and \<open>rls\<close> with one entry per row of the region, so
  that every write \<open>cbs[ir]\<close>, \<open>rls[ir]\<close> of the planning loop is in bounds. The code sizes
  both by the number of columns, \<open>ce - cb\<close> (lines 50 and 56). For the region of rows 0 to 3
  and columns 0 and 1 of four series, each sequence holds 2 entries, the loop runs over 4
  rows, and the write at \<open>ir = 2\<close> is past the end of \<open>cbs\<close>.
\<close>

theorem planner_overruns_its_sequences:
  "malloc True (sizeof_size_t * (ce \<lparr>rb = 0, re = 4, cb = 0, ce = 2\<rparr>
                                  - cb \<lparr>rb = 0, re = 4, cb = 0, ce = 2\<rparr>))
     = Some (replicate 2 0)
   \<and> unat (re \<lparr>rb = 0, re = 4, cb = 0, ce = 2\<rparr> - rb \<lparr>rb = 0, re = 4, cb = 0, ce = 2\<rparr>) = 4
   \<and> dtw_distances_prepare len (True, True) \<lparr>rb = 0, re = 4, cb = 0, ce = 2\<rparr> 4 settings
       = Inl OutOfBounds"
  by (simp add: dtw_distances_prepare_def out_param_is_null_def malloc_def sizeof_size_t_def
      prepare_loop.simps)

section \<open>A failed allocation\<close>

text \<open>
  C8. When either planner sequence cannot be allocated, the preparation step is to return
  nonzero with the length at 0 and what was allocated released. The tests \<open>!cbs\<close> and
  \<open>!rls\<close> (lines 51 and 57) look at the address of the out-parameter, not at the pointer
  \<open>malloc\<close> returned, so a null result goes undetected and the planning loop writes through
  it: for the full region of four series the call ends in a null dereference whichever of
  the two allocations fails.
\<close>

theorem failed_allocation_is_dereferenced:
  "dtw_distances_prepare len (False, True) \<lparr>rb = 0, re = 0, cb = 0, ce = 0\<rparr> 4 settings
     = Inl NullDeref
   \<and> dtw_distances_prepare len (True, False) \<lparr>rb = 0, re = 0, cb = 0, ce = 0\<rparr> 4 settings
     = Inl NullDeref"
  by (simp add: dtw_distances_prepare_def out_param_is_null_def malloc_def sizeof_size_t_def
      prepare_loop.simps)

section \<open>The loops\<close>

lemma apply_writes_append [simp]:
  "apply_writes val (xs @ ys) out = apply_writes val ys (apply_writes val xs out)"
  by (induction xs arbitrary: out) auto

lemma apply_writes_frame:
  "k \<notin> fst ` set evs \<Longrightarrow> apply_writes val evs out k = out k"
  by (induction evs arbitrary: out) auto

lemma prepare_loop_free:
  "prepare_loop b r rs ir cbs rls = Inr (cbs', rls') \<Longrightarrow> free cbs' = free cbs \<and> free rls' = free rls"
proof (induction b r rs ir cbs rls rule: prepare_loop.induct)
  case (1 block r rs ir cbs rls)
  show ?case
  proof (cases "r < re block")
    case False
    with "1.prems" show ?thesis by (simp add: prepare_loop.simps)
  next
    case True
    let ?c = "if r + 1 > cb block then r + 1 else cb block"
    from True "1.prems" obtain cs ls where cs: "cbs = Some cs" "unat ir < length cs"
      and ls: "rls = Some ls" "unat ir < length ls"
      and rec: "prepare_loop block (r + 1) (rs + (ce block - ?c)) (ir + 1)
                  (Some (cs[unat ir := ?c])) (Some (ls[unat ir := rs])) = Inr (cbs', rls')"
      by (cases cbs; cases rls) (auto simp: prepare_loop.simps [of block r] Let_def split: if_splits)
    have "free cbs' = free (Some (cs[unat ir := ?c])) \<and> free rls' = free (Some (ls[unat ir := rs]))"
      by (rule "1.IH" [OF True refl _ _ rec]) (simp_all add: cs ls)
    then show ?thesis by (simp add: cs ls free_def)
  qed
qed

lemma cols_loop_log:
  "cols_loop val b rls r_i r c c_i st = Inr st'
   \<Longrightarrow> \<exists>evs. st' = (apply_writes val evs (fst st), snd st @ evs)"
proof (induction val b rls r_i r c c_i st rule: cols_loop.induct)
  case (1 val block rls r_i r c c_i st)
  show ?case
  proof (cases "c < ce block")
    case False
    with "1.prems" have "st' = st" by (simp add: cols_loop.simps)
    then have "st' = (apply_writes val [] (fst st), snd st @ [])" by simp
    then show ?thesis by blast
  next
    case True
    from True "1.prems" obtain base where base: "load rls r_i = Inr base"
      and rec: "cols_loop val block rls r_i r (c + 1) (c_i + 1)
                 ((fst st)(base + c_i := val r c), snd st @ [(base + c_i, r, c)]) = Inr st'"
      by (cases "load rls r_i") (auto simp: cols_loop.simps [of val block rls r_i r c])
    from "1.IH" [OF True base rec] obtain evs where
      "st' = (apply_writes val evs ((fst st)(base + c_i := val r c)),
              (snd st @ [(base + c_i, r, c)]) @ evs)"
      unfolding fst_conv snd_conv by blast
    then have "st' = (apply_writes val ((base + c_i, r, c) # evs) (fst st),
                      snd st @ ((base + c_i, r, c) # evs))"
      by simp
    then show ?thesis by blast
  qed
qed

lemma rows_loop_log:
  "rows_loop val b cbs rls r_i st = Inr st'
   \<Longrightarrow> \<exists>evs. st' = (apply_writes val evs (fst st), snd st @ evs)"
proof (induction val b cbs rls r_i st rule: rows_loop.induct)
  case (1 val block cbs rls r_i st)
  show ?case
  proof (cases "r_i < re block - rb block")
    case False
    with "1.prems" have "st' = st" by (simp add: rows_loop.simps)
    then have "st' = (apply_writes val [] (fst st), snd st @ [])" by simp
    then show ?thesis by blast
  next
    case True
    from True "1.prems" obtain c0 st1 where c0: "load cbs r_i = Inr c0"
      and row: "cols_loop val block rls r_i (rb block + r_i) c0 0 st = Inr st1"
      and rec: "rows_loop val block cbs rls (r_i + 1) st1 = Inr st'"
      by (cases "load cbs r_i"; cases "cols_loop val block rls r_i (rb block + r_i) (projr (load cbs r_i)) 0 st")
         (auto simp: rows_loop.simps [of val block cbs rls r_i])
    from cols_loop_log [OF row] obtain e1 where
      e1: "st1 = (apply_writes val e1 (fst st), snd st @ e1)" by blast
    from "1.IH" [OF True c0 row rec] obtain e2 where
      e2: "st' = (apply_writes val e2 (fst st1), snd st1 @ e2)" by blast
    from e1 e2 have "st' = (apply_writes val (e1 @ e2) (fst st), snd st @ (e1 @ e2))"
      by simp
    then show ?thesis by blast
  qed
qed

section \<open>What a call changes\<close>

lemma distances_parallel_empty:
  assumes "empty_region (correct_block block nb)"
  shows "distances_parallel len mallocs val nb output block settings =
           Inr \<lparr>o_ret = 0, o_output = output, o_block = correct_block block nb,
                o_writes = [], o_live = 0\<rparr>"
  using assms by (simp add: distances_parallel_def prepare_unfold Let_def)

lemma distances_parallel_Inr:
  assumes "distances_parallel len mallocs val nb output block settings = Inr res"
  shows "o_block res = correct_block block nb \<and> o_live res = 0 \<and>
         o_output res = apply_writes val (o_writes res) output"
proof (cases "empty_region (correct_block block nb)")
  case True
  from assms show ?thesis
    unfolding distances_parallel_empty [OF True] by auto
next
  case False
  let ?b = "correct_block block nb"
  let ?cbs = "malloc (fst mallocs) (sizeof_size_t * (ce ?b - cb ?b))"
  let ?rls = "malloc (snd mallocs) (sizeof_size_t * (ce ?b - cb ?b))"
  from False assms obtain cbs' rls' st where
    pl: "prepare_loop ?b (rb ?b) 0 0 ?cbs ?rls = Inr (cbs', rls')"
    and rl: "rows_loop val ?b cbs' rls' 0 (output, []) = Inr st"
    and res: "res = \<lparr>o_ret = len block nb (use_ssize_t settings), o_output = fst st,
                     o_block = ?b, o_writes = snd st,
                     o_live = free ?cbs + free ?rls - free cbs' - free rls'\<rparr>"
    by (auto simp: distances_parallel_def prepare_unfold Let_def split: sum.splits)
  from prepare_loop_free [OF pl] have "free ?cbs + free ?rls - free cbs' - free rls' = 0"
    by simp
  moreover from rows_loop_log [OF rl] have "fst st = apply_writes val (snd st) output"
    by auto
  ultimately show ?thesis by (simp add: res)
qed

lemma distances_parallel_frame_ok:
  "frame_ok block nb output (distances_parallel len mallocs val nb output block settings)"
proof (cases "distances_parallel len mallocs val nb output block settings")
  case (Inl f)
  then show ?thesis by (simp add: frame_ok_def)
next
  case (Inr res)
  from distances_parallel_Inr [OF Inr] show ?thesis
    by (simp add: frame_ok_def Inr apply_writes_frame)
qed

text \<open>
  C6, amended. A call of any of the four entry points that returns leaves no planner
  sequence allocated and changes the output buffer only at the indices it assigns, and it
  does change the caller's block: \<open>re\<close> and \<open>ce\<close> are overwritten with the series count
  where they were 0 (lines 35 to 40); \<open>rb\<close>, \<open>cb\<close> and nonzero ends are left as they were.
\<close>

theorem block_defaulted_in_place:
  "frame_ok block nb output
     (dtw_distances_ptrs_parallel len mallocs dtw_distance ptrs nb lengths output block settings)
   \<and> frame_ok block nb output
     (dtw_distances_ndim_ptrs_parallel len mallocs dtw_distance_ndim ptrs nb lengths ndim output
        block settings)
   \<and> frame_ok block nb output
     (dtw_distances_matrix_parallel len mallocs dtw_distance matrix nb nb_cols output block
        settings)
   \<and> frame_ok block nb output
     (dtw_distances_ndim_matrix_parallel len mallocs dtw_distance_ndim matrix nb nb_cols ndim
        output block settings)"
  unfolding entry_defs by (intro conjI distances_parallel_frame_ok)

text \<open>
  The full region of two series given as \<open>(0, 0, 0, 0)\<close>: the call returns, assigns
  \<open>output[0]\<close> only, and the block comes back as \<open>(0, 2, 0, 2)\<close>.
\<close>

theorem block_defaulted_in_place_witness:
  "(case dtw_distances_ptrs_parallel region_length (True, True) (\<lambda>p l q m s. (1 :: int))
      (\<lambda>i. i) 2 (\<lambda>i. 1) (\<lambda>k. 0) \<lparr>rb = 0, re = 0, cb = 0, ce = 0\<rparr> \<lparr>use_ssize_t = False\<rparr> of
      Inl f \<Rightarrow> False
    | Inr res \<Rightarrow> o_writes res = [(0, 0, 1)] \<and> o_live res = 0 \<and> o_output res 1 = 0
        \<and> o_block res = correct_block \<lparr>rb = 0, re = 0, cb = 0, ce = 0\<rparr> 2)"
  using block_defaulted_in_place [of "\<lparr>rb = 0, re = 0, cb = 0, ce = 0\<rparr>" 2 "\<lambda>k. 0"
      region_length "(True, True)" "\<lambda>p l q m s. (1 :: int)" "\<lambda>i. i" "\<lambda>i. 1"
      "\<lparr>use_ssize_t = False\<rparr>"]
  by (simp add: frame_ok_def entry_defs eval_defs correct_block_def)

text \<open>
  C6 as stated fails: after the call on the full region of two series given as
  \<open>(0, 0, 0, 0)\<close> the caller's block is \<open>(0, 2, 0, 2)\<close>.
\<close>

theorem block_is_changed:
  "(case dtw_distances_ptrs_parallel region_length (True, True) (\<lambda>p l q m s. (1 :: int))
      (\<lambda>i. i) 2 (\<lambda>i. 1) (\<lambda>k. 0) \<lparr>rb = 0, re = 0, cb = 0, ce = 0\<rparr> \<lparr>use_ssize_t = False\<rparr> of
      Inl f \<Rightarrow> False
    | Inr res \<Rightarrow> o_block res = \<lparr>rb = 0, re = 2, cb = 0, ce = 2\<rparr>
        \<and> o_block res \<noteq> \<lparr>rb = 0, re = 0, cb = 0, ce = 0\<rparr>)"
  by (simp add: entry_defs eval_defs)

lemma replicate_numeral_Cons:
  "replicate (numeral k) x = x # replicate (pred_numeral k) x"
  by (simp add: numeral_eq_Suc)

section \<open>The empty region\<close>

text \<open>
  C5, amended. When the region is empty after defaulting (\<open>re \<le> rb\<close> or \<open>ce \<le> cb\<close>), the
  preparation step returns 1 with the length set to 0 and nothing allocated, and each of
  the four entry points returns 0 and leaves the output buffer as it was. The entry points
  return the length and nothing else: the 0 is the value a call on a region without pairs
  returns too, and the return code of the preparation step does not reach the caller.
\<close>

theorem empty_region_returns_zero:
  assumes "empty_region (correct_block block nb)"
  shows "dtw_distances_prepare len mallocs block nb settings =
           Inr \<lparr>rc = 1, p_block = correct_block block nb, p_cbs = None, p_rls = None,
                p_length = 0, p_live = 0\<rparr>
    \<and> dtw_distances_ptrs_parallel len mallocs dtw_distance ptrs nb lengths output block
         settings =
           Inr \<lparr>o_ret = 0, o_output = output, o_block = correct_block block nb,
                o_writes = [], o_live = 0\<rparr>
    \<and> dtw_distances_ndim_ptrs_parallel len mallocs dtw_distance_ndim ptrs nb lengths ndim
         output block settings =
           Inr \<lparr>o_ret = 0, o_output = output, o_block = correct_block block nb,
                o_writes = [], o_live = 0\<rparr>
    \<and> dtw_distances_matrix_parallel len mallocs dtw_distance matrix nb nb_cols output block
         settings =
           Inr \<lparr>o_ret = 0, o_output = output, o_block = correct_block block nb,
                o_writes = [], o_live = 0\<rparr>
    \<and> dtw_distances_ndim_matrix_parallel len mallocs dtw_distance_ndim matrix nb nb_cols ndim
         output block settings =
           Inr \<lparr>o_ret = 0, o_output = output, o_block = correct_block block nb,
                o_writes = [], o_live = 0\<rparr>"
  using assms
  by (simp add: entry_defs distances_parallel_empty prepare_unfold Let_def)

text \<open>The region \<open>(3, 2, 0, 0)\<close> of five series: \<open>re < rb\<close>.\<close>

theorem empty_region_returns_zero_witness:
  "empty_region (correct_block \<lparr>rb = 3, re = 2, cb = 0, ce = 0\<rparr> 5)
   \<and> dtw_distances_prepare region_length (True, True) \<lparr>rb = 3, re = 2, cb = 0, ce = 0\<rparr> 5
        \<lparr>use_ssize_t = False\<rparr> =
       Inr \<lparr>rc = 1, p_block = \<lparr>rb = 3, re = 2, cb = 0, ce = 5\<rparr>, p_cbs = None, p_rls = None,
            p_length = 0, p_live = 0\<rparr>
   \<and> dtw_distances_matrix_parallel region_length (True, True) (\<lambda>p l q m s. (1 :: int)) 0 5 3
        (\<lambda>k. 0) \<lparr>rb = 3, re = 2, cb = 0, ce = 0\<rparr> \<lparr>use_ssize_t = False\<rparr> =
       Inr \<lparr>o_ret = 0, o_output = (\<lambda>k. 0), o_block = \<lparr>rb = 3, re = 2, cb = 0, ce = 5\<rparr>,
            o_writes = [], o_live = 0\<rparr>"
proof -
  have e: "empty_region (correct_block \<lparr>rb = 3, re = 2, cb = 0, ce = 0\<rparr> 5)"
    by (simp add: empty_region_def correct_block_ends)
  have c: "correct_block \<lparr>rb = 3, re = 2, cb = 0, ce = 0\<rparr> 5 = \<lparr>rb = 3, re = 2, cb = 0, ce = 5\<rparr>"
    by (simp add: correct_block_def)
  from empty_region_returns_zero [OF e, of region_length "(True, True)"
      "\<lparr>use_ssize_t = False\<rparr>" "\<lambda>p l q m s. (1 :: int)" _ _ "\<lambda>k. 0" _ _ 0 3] e
  show ?thesis
    unfolding c by blast
qed

text \<open>
  C5 as stated fails: the caller cannot tell the failure from an empty result. For five
  series, the call on the empty region \<open>(3, 2, 0, 5)\<close>, where the preparation step returns
  1, and the call on the region \<open>(4, 5, 0, 5)\<close>, where it returns 0 and no pair is to be
  computed, both return 0 with the output buffer and the block untouched.
\<close>

theorem empty_region_looks_like_empty_result:
  "dtw_distances_ptrs_parallel region_length (True, True) (\<lambda>p l q m s. (1 :: int))
      (\<lambda>i. i) 5 (\<lambda>i. 1) (\<lambda>k. 0) \<lparr>rb = 3, re = 2, cb = 0, ce = 5\<rparr> \<lparr>use_ssize_t = False\<rparr> =
     Inr \<lparr>o_ret = 0, o_output = (\<lambda>k. 0), o_block = \<lparr>rb = 3, re = 2, cb = 0, ce = 5\<rparr>,
          o_writes = [], o_live = 0\<rparr>
   \<and> dtw_distances_ptrs_parallel region_length (True, True) (\<lambda>p l q m s. (1 :: int))
      (\<lambda>i. i) 5 (\<lambda>i. 1) (\<lambda>k. 0) \<lparr>rb = 4, re = 5, cb = 0, ce = 5\<rparr> \<lparr>use_ssize_t = False\<rparr> =
     Inr \<lparr>o_ret = 0, o_output = (\<lambda>k. 0), o_block = \<lparr>rb = 4, re = 5, cb = 0, ce = 5\<rparr>,
          o_writes = [], o_live = 0\<rparr>
   \<and> map_sum id rc (dtw_distances_prepare region_length (True, True)
        \<lparr>rb = 3, re = 2, cb = 0, ce = 5\<rparr> 5 \<lparr>use_ssize_t = False\<rparr>) = Inr 1
   \<and> map_sum id rc (dtw_distances_prepare region_length (True, True)
        \<lparr>rb = 4, re = 5, cb = 0, ce = 5\<rparr> 5 \<lparr>use_ssize_t = False\<rparr>) = Inr 0"
  by (simp add: entry_defs eval_defs region_length_def pair_count_def row_count_def
      correct_block_def)

section \<open>The ragged and the contiguous computer\<close>

lemma row_in_region:
  fixes a b x :: size_t
  assumes "x < b - a" and "a \<le> b"
  shows "a + x < b"
proof -
  from assms(2) have ab: "unat (b - a) = unat b - unat a"
    by (simp add: unat_sub)
  from assms(1) have "unat x < unat (b - a)"
    by (simp add: word_less_nat_alt)
  with ab have lt: "unat a + unat x < unat b"
    by simp
  have "unat b < 2 ^ LENGTH(64)"
    by (rule unsigned_less)
  with lt have "unat a + unat x < 2 ^ LENGTH(64)"
    by simp
  then have "unat (a + x) = unat a + unat x"
    by (simp only: unat_add_lem)
  with lt show ?thesis
    by (simp add: word_less_nat_alt)
qed

lemma cols_loop_cong:
  assumes "\<And>c'. c' < ce b \<Longrightarrow> val1 r c' = val2 r c'"
  shows "cols_loop val1 b rls r_i r c c_i st = cols_loop val2 b rls r_i r c c_i st"
  using assms
proof (induction val1 b rls r_i r c c_i st rule: cols_loop.induct)
  case (1 val1 block rls r_i r c c_i st)
  show ?case
  proof (cases "c < ce block")
    case False
    then show ?thesis
      by (simp add: cols_loop.simps [of _ block rls r_i r c])
  next
    case True
    show ?thesis
    proof (cases "load rls r_i")
      case (Inl f)
      with True show ?thesis
        by (simp add: cols_loop.simps [of _ block rls r_i r c])
    next
      case (Inr base)
      have "cols_loop val1 block rls r_i r (c + 1) (c_i + 1)
              ((fst st)(base + c_i := val1 r c), snd st @ [(base + c_i, r, c)]) =
            cols_loop val2 block rls r_i r (c + 1) (c_i + 1)
              ((fst st)(base + c_i := val1 r c), snd st @ [(base + c_i, r, c)])"
        by (rule "1.IH" [OF True Inr]) (rule "1.prems")
      with True Inr "1.prems" [OF True] show ?thesis
        by (simp add: cols_loop.simps [of _ block rls r_i r c])
    qed
  qed
qed

lemma rows_loop_cong:
  assumes "\<And>r c'. r < re b \<Longrightarrow> c' < ce b \<Longrightarrow> val1 r c' = val2 r c'" and "rb b \<le> re b"
  shows "rows_loop val1 b cbs rls r_i st = rows_loop val2 b cbs rls r_i st"
  using assms
proof (induction val1 b cbs rls r_i st rule: rows_loop.induct)
  case (1 val1 block cbs rls r_i st)
  show ?case
  proof (cases "r_i < re block - rb block")
    case False
    then show ?thesis
      by (simp add: rows_loop.simps [of _ block cbs rls r_i])
  next
    case True
    have r: "rb block + r_i < re block"
      using True "1.prems"(2) by (rule row_in_region)
    show ?thesis
    proof (cases "load cbs r_i")
      case (Inl f)
      with True show ?thesis
        by (simp add: rows_loop.simps [of _ block cbs rls r_i])
    next
      case c0: (Inr c0)
      have row: "cols_loop val1 block rls r_i (rb block + r_i) c0 0 st =
                 cols_loop val2 block rls r_i (rb block + r_i) c0 0 st"
        by (rule cols_loop_cong) (rule "1.prems"(1) [OF r])
      have step: "rows_loop v block cbs rls r_i st =
          (case cols_loop v block rls r_i (rb block + r_i) c0 0 st of
             Inl f \<Rightarrow> Inl f
           | Inr st' \<Rightarrow> rows_loop v block cbs rls (r_i + 1) st')" for v :: "size_t \<Rightarrow> size_t \<Rightarrow> 'a"
        using True c0 by (simp add: rows_loop.simps [of v block cbs rls r_i])
      show ?thesis
      proof (cases "cols_loop val1 block rls r_i (rb block + r_i) c0 0 st")
        case (Inl f)
        moreover from Inl row
        have "cols_loop val2 block rls r_i (rb block + r_i) c0 0 st = Inl f"
          by simp
        ultimately show ?thesis
          by (simp only: step sum.case)
      next
        case (Inr st1)
        have rec: "rows_loop val1 block cbs rls (r_i + 1) st1 =
              rows_loop val2 block cbs rls (r_i + 1) st1"
          using "1.prems" by (intro "1.IH" [OF True c0 Inr]) auto
        from Inr row
        have "cols_loop val2 block rls r_i (rb block + r_i) c0 0 st = Inr st1"
          by simp
        with Inr rec show ?thesis
          by (simp only: step sum.case)
      qed
    qed
  qed
qed

lemma distances_parallel_cong:
  assumes "\<And>r c. r < re (correct_block block nb) \<Longrightarrow> c < ce (correct_block block nb)
             \<Longrightarrow> val1 r c = val2 r c"
  shows "distances_parallel len mallocs val1 nb output block settings =
         distances_parallel len mallocs val2 nb output block settings"
proof (cases "dtw_distances_prepare len mallocs block nb settings")
  case (Inl f)
  then show ?thesis
    by (simp add: distances_parallel_def)
next
  case (Inr p)
  show ?thesis
  proof (cases "rc p = 0")
    case False
    with Inr show ?thesis
      by (simp add: distances_parallel_def)
  next
    case True
    with Inr have b: "p_block p = correct_block block nb"
      and ne: "\<not> empty_region (correct_block block nb)"
      by (auto simp: prepare_unfold Let_def split: if_splits sum.splits)
    from ne have "rb (p_block p) \<le> re (p_block p)"
      unfolding b empty_region_def by (simp add: not_le less_imp_le)
    with assms have "rows_loop val1 (p_block p) (p_cbs p) (p_rls p) 0 (output, []) =
                     rows_loop val2 (p_block p) (p_cbs p) (p_rls p) 0 (output, [])"
      unfolding b by (intro rows_loop_cong) auto
    with Inr True show ?thesis
      by (simp add: distances_parallel_def)
  qed
qed

text \<open>
  When \<open>ptrs[i]\<close> is the address of row \<open>i\<close> of the matrix, \<open>&matrix[i * nb_cols]\<close>, and
  \<open>lengths[i]\<close> is \<open>nb_cols\<close>, for every index \<open>i\<close> of a series or of a row or column of the
  region, then \<open>dtw_distances_ptrs_parallel\<close> and \<open>dtw_distances_matrix_parallel\<close>, called
  with the same region, settings and output buffer, end alike: either both return, with the
  same length, output buffer and block, or both end in the same undefined behaviour.
\<close>

lemma ragged_contiguous_alike:
  assumes "\<And>i. i < nb \<or> i < re (correct_block block nb) \<or> i < ce (correct_block block nb)
             \<Longrightarrow> ptrs i = matrix + i * nb_cols \<and> lengths i = nb_cols"
  shows "dtw_distances_ptrs_parallel len mallocs dtw_distance ptrs nb lengths output block
           settings =
         dtw_distances_matrix_parallel len mallocs dtw_distance matrix nb nb_cols output block
           settings"
  unfolding dtw_distances_ptrs_parallel_def dtw_distances_matrix_parallel_def
  by (rule distances_parallel_cong) (simp add: assms)

text \<open>
  C9. On the same series, \<open>ptrs[i] = &matrix[i * nb_cols]\<close> and \<open>lengths[i] = nb_cols\<close>, and
  the same region and settings, \<open>dtw_distances_ptrs_parallel\<close> and
  \<open>dtw_distances_matrix_parallel\<close> are to produce the same output buffer and to return the
  same length. The two never differ (\<open>ragged_contiguous_alike\<close>), and where they return
  they do as asked: for three series of two elements in a matrix at address 100, the metric
  being the sum of its two addresses, both return the length obtained for the block and the
  buffer \<open>202, 204, 206\<close>. But on rows 0 to 3 and columns 3 to 5 of six series, a region of
  eleven pairs, neither produces a buffer or returns a length: in both the planner, whose
  sequences hold three entries, writes \<open>cbs[3]\<close> past the end.
\<close>

theorem tall_region_yields_no_buffer:
  "region_pairs \<lparr>rb = 0, re = 4, cb = 3, ce = 6\<rparr> =
     [(0, 3), (0, 4), (0, 5), (1, 3), (1, 4), (1, 5), (2, 3), (2, 4), (2, 5), (3, 4), (3, 5)]
   \<and> dtw_distances_ptrs_parallel len (True, True) dtw_distance (\<lambda>i. matrix + i * nb_cols) 6
        (\<lambda>i. nb_cols) output \<lparr>rb = 0, re = 4, cb = 3, ce = 6\<rparr> settings = Inl OutOfBounds
   \<and> dtw_distances_matrix_parallel len (True, True) dtw_distance matrix 6 nb_cols output
        \<lparr>rb = 0, re = 4, cb = 3, ce = 6\<rparr> settings = Inl OutOfBounds
   \<and> map_sum id (\<lambda>res. (o_ret res, map (o_output res) [0, 1, 2, 3]))
        (dtw_distances_ptrs_parallel len (True, True) (\<lambda>p l q m s. p + q)
           (\<lambda>i. 100 + i * 2) 3 (\<lambda>i. 2) (\<lambda>k. 0) \<lparr>rb = 0, re = 0, cb = 0, ce = 0\<rparr> settings) =
      Inr (len \<lparr>rb = 0, re = 0, cb = 0, ce = 0\<rparr> 3 (use_ssize_t settings),
           [202, 204, 206, 0])
   \<and> map_sum id (\<lambda>res. (o_ret res, map (o_output res) [0, 1, 2, 3]))
        (dtw_distances_matrix_parallel len (True, True) (\<lambda>p l q m s. p + q)
           100 3 2 (\<lambda>k. 0) \<lparr>rb = 0, re = 0, cb = 0, ce = 0\<rparr> settings) =
      Inr (len \<lparr>rb = 0, re = 0, cb = 0, ce = 0\<rparr> 3 (use_ssize_t settings),
           [202, 204, 206, 0])"
  by (simp add: entry_defs eval_defs region_pairs_def pairs_of_row_def upt_to_numeral
      replicate_numeral_Cons Let_def)

section \<open>The planner\<close>

lemma unat_succ:
  fixes r :: size_t and m :: nat
  assumes "unat r < m" and "m < 2 ^ 64"
  shows "unat (r + 1) = Suc (unat r)"
proof -
  from assms have "unat r + unat (1 :: size_t) < 2 ^ LENGTH(64)"
    by simp
  then have "unat (r + 1) = unat r + unat (1 :: size_t)"
    by (simp only: unat_add_lem)
  then show ?thesis
    by simp
qed

lemma unat_size_t_bound: "unat (x :: size_t) < 2 ^ 64"
  using unsigned_less [of x, where 'a = nat] by simp

lemma unat_succ_less:
  fixes r m :: size_t
  assumes "r < m"
  shows "unat (r + 1) = Suc (unat r)"
proof -
  from assms have "unat r < unat m"
    by (simp add: word_less_nat_alt)
  moreover have "unat m < 2 ^ 64"
    by (rule unat_size_t_bound)
  ultimately show ?thesis
    by (rule unat_succ)
qed

lemma length_plan [simp]: "length (plan b r rs n) = n"
  by (induction n arbitrary: r rs) simp_all

lemma take_Suc_update:
  "i < length xs \<Longrightarrow> take (Suc i) (xs[i := v]) = take i xs @ [v]"
  by (simp add: take_Suc_conv_app_nth)

text \<open>
  The planning loop on two heap blocks: it fills \<open>n\<close> entries from \<open>ir\<close> on when both blocks
  are long enough, and writes past the end of one otherwise.
\<close>

lemma prepare_loop_eq:
  assumes "n = unat (re b) - unat r" and "unat ir + n < 2 ^ 64"
    and "unat ir \<le> length cs" and "unat ir \<le> length ls"
  shows "prepare_loop b r rs ir (Some cs) (Some ls) =
     (if unat ir + n \<le> length cs \<and> unat ir + n \<le> length ls then
        Inr (Some (take (unat ir) cs @ map fst (plan b r rs n) @ drop (unat ir + n) cs),
             Some (take (unat ir) ls @ map snd (plan b r rs n) @ drop (unat ir + n) ls))
      else Inl OutOfBounds)"
  using assms
proof (induction n arbitrary: r rs ir cs ls)
  case 0
  then have "\<not> r < re b"
    by (simp add: word_less_nat_alt)
  with 0 show ?case
    by (simp add: prepare_loop.simps [of b r])
next
  case (Suc m)
  from Suc.prems(1) have lt: "r < re b"
    by (simp add: word_less_nat_alt)
  then have r1: "unat (r + 1) = Suc (unat r)"
    by (rule unat_succ_less)
  from Suc.prems(2) have i1: "unat (ir + 1) = Suc (unat ir)"
    by (intro unat_succ [of ir "unat ir + Suc m"]) simp_all
  have m: "m = unat (re b) - unat (r + 1)"
    using Suc.prems(1) r1 by simp
  show ?case
  proof (cases "unat ir < length cs \<and> unat ir < length ls")
    case False
    with lt Suc.prems show ?thesis
      by (auto simp: prepare_loop.simps [of b r] Let_def)
  next
    case True
    have "prepare_loop b r rs ir (Some cs) (Some ls) =
          prepare_loop b (r + 1) (rs + (ce b - col_start b r)) (ir + 1)
            (Some (cs[unat ir := col_start b r])) (Some (ls[unat ir := rs]))"
      using lt True by (simp add: prepare_loop.simps [of b r] Let_def col_start_def)
    also have "\<dots> =
      (if unat (ir + 1) + m \<le> length (cs[unat ir := col_start b r]) \<and>
          unat (ir + 1) + m \<le> length (ls[unat ir := rs]) then
        Inr (Some (take (unat (ir + 1)) (cs[unat ir := col_start b r]) @
                   map fst (plan b (r + 1) (rs + (ce b - col_start b r)) m) @
                   drop (unat (ir + 1) + m) (cs[unat ir := col_start b r])),
             Some (take (unat (ir + 1)) (ls[unat ir := rs]) @
                   map snd (plan b (r + 1) (rs + (ce b - col_start b r)) m) @
                   drop (unat (ir + 1) + m) (ls[unat ir := rs])))
      else Inl OutOfBounds)"
      using Suc.prems(2) True by (intro Suc.IH m) (simp_all add: i1)
    also have "\<dots> =
      (if unat ir + Suc m \<le> length cs \<and> unat ir + Suc m \<le> length ls then
        Inr (Some (take (unat ir) cs @ map fst (plan b r rs (Suc m)) @
                   drop (unat ir + Suc m) cs),
             Some (take (unat ir) ls @ map snd (plan b r rs (Suc m)) @
                   drop (unat ir + Suc m) ls))
      else Inl OutOfBounds)"
      using True unfolding i1 by (simp add: take_Suc_update)
    finally show ?thesis .
  qed
qed

lemma prepare_loop_null:
  assumes "r < re b" and "cbs = None \<or> rls = None"
  shows "\<exists>f. prepare_loop b r rs ir cbs rls = Inl f"
  using assms
  by (cases cbs; cases rls) (auto simp: prepare_loop.simps [of b r] Let_def)

lemma malloc_capacity:
  "malloc True (sizeof_size_t * (ce b - cb b)) = Some (replicate (capacity b) 0)"
  by (simp add: malloc_def capacity_def)

text \<open>
  The preparation step on a region that is not empty: it succeeds when both allocations
  succeed and the rows are no more than the entries allocated, and ends in undefined
  behaviour otherwise.
\<close>

lemma prepare_nonempty:
  assumes "\<not> empty_region (correct_block block nb)"
  shows "dtw_distances_prepare len (True, True) block nb settings =
     (let b = correct_block block nb in
      if rows_of b \<le> capacity b then
        Inr \<lparr>rc = 0, p_block = b,
             p_cbs = Some (map fst (plan b (rb b) 0 (rows_of b))
                           @ replicate (capacity b - rows_of b) 0),
             p_rls = Some (map snd (plan b (rb b) 0 (rows_of b))
                           @ replicate (capacity b - rows_of b) 0),
             p_length = len block nb (use_ssize_t settings), p_live = 2\<rparr>
      else Inl OutOfBounds)"
proof -
  let ?b = "correct_block block nb"
  have n: "rows_of ?b < 2 ^ 64"
    using unat_size_t_bound [of "re ?b"] unfolding rows_of_def
    by (simp)
  have "prepare_loop ?b (rb ?b) 0 0 (Some (replicate (capacity ?b) 0))
          (Some (replicate (capacity ?b) 0)) =
     (if rows_of ?b \<le> capacity ?b then
        Inr (Some (map fst (plan ?b (rb ?b) 0 (rows_of ?b))
                   @ replicate (capacity ?b - rows_of ?b) 0),
             Some (map snd (plan ?b (rb ?b) 0 (rows_of ?b))
                   @ replicate (capacity ?b - rows_of ?b) 0))
      else Inl OutOfBounds)"
    using n by (subst prepare_loop_eq [where n = "rows_of ?b"])
      (simp_all add: rows_of_def)
  with assms show ?thesis
    unfolding prepare_unfold Let_def fst_conv snd_conv malloc_capacity
    by (simp add: free_def)
qed

lemma prepare_alloc_failure:
  assumes "\<not> empty_region (correct_block block nb)" and "\<not> (fst mallocs \<and> snd mallocs)"
  shows "\<exists>f. dtw_distances_prepare len mallocs block nb settings = Inl f"
proof -
  let ?b = "correct_block block nb"
  from assms(1) have "rb ?b < re ?b"
    by (simp add: empty_region_def not_le)
  moreover from assms(2)
  have "malloc (fst mallocs) (sizeof_size_t * (ce ?b - cb ?b)) = None \<or>
        malloc (snd mallocs) (sizeof_size_t * (ce ?b - cb ?b)) = None"
    by (auto simp: malloc_def)
  ultimately obtain f where
    "prepare_loop ?b (rb ?b) 0 0 (malloc (fst mallocs) (sizeof_size_t * (ce ?b - cb ?b)))
       (malloc (snd mallocs) (sizeof_size_t * (ce ?b - cb ?b))) = Inl f"
    using prepare_loop_null by blast
  with assms(1) show ?thesis
    by (simp add: prepare_unfold Let_def)
qed

lemma prepare_success:
  assumes "dtw_distances_prepare len mallocs block nb settings = Inr p" and "rc p = 0"
  shows "\<not> empty_region (correct_block block nb)"
    and "mallocs = (True, True)"
    and "rows_of (correct_block block nb) \<le> capacity (correct_block block nb)"
    and "p = \<lparr>rc = 0, p_block = correct_block block nb,
             p_cbs = Some (map fst (plan (correct_block block nb) (rb block) 0
                                      (rows_of (correct_block block nb)))
                           @ replicate (capacity (correct_block block nb)
                                        - rows_of (correct_block block nb)) 0),
             p_rls = Some (map snd (plan (correct_block block nb) (rb block) 0
                                      (rows_of (correct_block block nb)))
                           @ replicate (capacity (correct_block block nb)
                                        - rows_of (correct_block block nb)) 0),
             p_length = len block nb (use_ssize_t settings), p_live = 2\<rparr>"
proof -
  let ?b = "correct_block block nb"
  from assms show ne: "\<not> empty_region ?b"
    by (auto simp: prepare_unfold Let_def)
  from assms(1) prepare_alloc_failure [OF ne, of mallocs len settings]
  have "fst mallocs \<and> snd mallocs"
    by auto
  then show m: "mallocs = (True, True)"
    by (cases mallocs) simp
  from assms(1) show "rows_of ?b \<le> capacity ?b"
    unfolding m prepare_nonempty [OF ne] Let_def by (simp split: if_splits)
  with assms(1) show "p = \<lparr>rc = 0, p_block = correct_block block nb,
             p_cbs = Some (map fst (plan (correct_block block nb) (rb block) 0
                                      (rows_of (correct_block block nb)))
                           @ replicate (capacity (correct_block block nb)
                                        - rows_of (correct_block block nb)) 0),
             p_rls = Some (map snd (plan (correct_block block nb) (rb block) 0
                                      (rows_of (correct_block block nb)))
                           @ replicate (capacity (correct_block block nb)
                                        - rows_of (correct_block block nb)) 0),
             p_length = len block nb (use_ssize_t settings), p_live = 2\<rparr>"
    unfolding m prepare_nonempty [OF ne] Let_def by simp
qed

lemma rows_of_unat:
  assumes "\<not> empty_region b"
  shows "unat (re b - rb b) = rows_of b"
proof -
  from assms have "rb b \<le> re b"
    by (simp add: empty_region_def not_le less_imp_le)
  then show ?thesis
    by (simp add: rows_of_def unat_sub)
qed

text \<open>
  Below \<open>2 ^ 61\<close> columns the byte count of lines 50 and 56 does not wrap, and the entries
  allocated are the columns of the region: the planner stays inside its sequences exactly
  when the region has no more rows than columns.
\<close>

lemma capacity_columns:
  assumes "unat (ce b - cb b) < 2 ^ 61"
  shows "capacity b = unat (ce b - cb b)"
proof -
  from assms have "unat (8 :: size_t) * unat (ce b - cb b) < 2 ^ LENGTH(64)"
    by simp
  then have "unat (8 * (ce b - cb b)) = unat (8 :: size_t) * unat (ce b - cb b)"
    by (simp only: unat_mult_lem)
  then show ?thesis
    by (simp add: capacity_def sizeof_size_t_def)
qed

lemma planner_completes_iff:
  assumes "\<not> empty_region (correct_block block nb)"
    and "unat (ce (correct_block block nb) - cb block) < 2 ^ 61"
  shows "(\<exists>p. dtw_distances_prepare len (True, True) block nb settings = Inr p) \<longleftrightarrow>
         unat (re (correct_block block nb) - rb block)
           \<le> unat (ce (correct_block block nb) - cb block)"
proof -
  let ?b = "correct_block block nb"
  have "capacity ?b = unat (ce ?b - cb ?b)"
    using assms(2) by (intro capacity_columns) simp
  moreover have "rows_of ?b = unat (re ?b - rb ?b)"
    using rows_of_unat [OF assms(1)] by simp
  ultimately show ?thesis
    by (simp add: prepare_nonempty [OF assms(1)] Let_def)
qed

section \<open>The row offsets\<close>

lemma plan_fst_nth:
  "i < n \<Longrightarrow> fst (plan b r rs n ! i) = col_start b (r + of_nat i)"
proof (induction n arbitrary: r rs i)
  case 0
  then show ?case by simp
next
  case (Suc m)
  show ?case
  proof (cases i)
    case 0
    then show ?thesis by simp
  next
    case (Suc j)
    with Suc.prems have "j < m" by simp
    then have "fst (plan b (r + 1) (rs + (ce b - col_start b r)) m ! j) =
               col_start b (r + 1 + of_nat j)"
      by (rule Suc.IH)
    then show ?thesis
      by (simp add: Suc add.assoc add.commute [of 1])
  qed
qed

lemma plan_snd_0: "0 < n \<Longrightarrow> snd (plan b r rs n ! 0) = rs"
  by (cases n) simp_all

lemma plan_snd_Suc:
  "Suc i < n \<Longrightarrow>
   snd (plan b r rs n ! Suc i) = snd (plan b r rs n ! i) + (ce b - fst (plan b r rs n ! i))"
proof (induction n arbitrary: r rs i)
  case 0
  then show ?case by simp
next
  case (Suc m)
  show ?case
  proof (cases i)
    case 0
    with Suc.prems have "0 < m" by simp
    then show ?thesis
      by (simp add: 0 plan_snd_0)
  next
    case (Suc j)
    with Suc.prems have "Suc j < m" by simp
    then show ?thesis
      by (simp add: Suc Suc.IH)
  qed
qed

lemma offset_step_up:
  fixes x c e :: size_t
  assumes "c \<le> e" and "unat x + unat (e - c) < 2 ^ 64"
  shows "x \<le> x + (e - c) \<and> (x = x + (e - c) \<longleftrightarrow> c = e)"
proof -
  from assms(2) have "unat x + unat (e - c) < 2 ^ LENGTH(64)"
    by simp
  then have "unat (x + (e - c)) = unat x + unat (e - c)"
    by (simp only: unat_add_lem)
  then show ?thesis
    by (auto simp: word_le_nat_alt)
qed

lemma offset_step_down:
  fixes x c e :: size_t
  assumes "e < c" and "unat (c - e) \<le> unat x"
  shows "x + (e - c) < x"
proof -
  have eq: "x + (e - c) = x - (c - e)"
    by simp
  from assms(2) have le: "c - e \<le> x"
    by (simp add: word_le_nat_alt)
  then have "unat (x - (c - e)) = unat x - unat (c - e)"
    by (simp add: unat_sub)
  moreover from assms(1) have "0 < unat (c - e)"
    by (simp add: unat_gt_0)
  ultimately show ?thesis
    using assms(2) unfolding eq by (simp add: word_less_nat_alt)
qed
lemma col_start_le:
  assumes "cb b < ce b" and "r + 1 \<le> ce b"
  shows "col_start b r \<le> ce b"
  using assms by (simp add: col_start_def less_imp_le)

lemma col_start_gt:
  assumes "cb b < ce b" and "ce b < r + 1"
  shows "ce b < col_start b r"
  using assms by (auto simp: col_start_def)

text \<open>
  C7, amended. Let the preparation step return 0 on a region; \<open>cbs\<close> and \<open>rls\<close> are then
  allocated, \<open>rls[0] = 0\<close>, and for consecutive rows \<open>r\<close>, \<open>r + 1\<close> of the region, at
  positions \<open>i\<close> and \<open>i + 1\<close>: \<open>cbs[i]\<close> is the first column of row \<open>r\<close> and
  \<open>rls[i + 1] = rls[i] + (ce - cbs[i])\<close> in \<open>size_t\<close>. When \<open>r + 1 \<le> ce\<close> and that sum does
  not exceed \<open>size_t\<close>, \<open>rls[i] \<le> rls[i + 1]\<close>, with equality exactly when the row visits no
  column (\<open>cbs[i] = ce\<close>). When \<open>r + 1 > ce\<close> the subtraction wraps, and \<open>rls[i + 1]\<close> is
  smaller than \<open>rls[i]\<close> as soon as \<open>rls[i]\<close> is at least \<open>cbs[i] - ce\<close>.
\<close>

theorem row_offsets_steps:
  assumes "dtw_distances_prepare len mallocs block nb settings = Inr p" and "rc p = 0"
    and "Suc i < rows_of (p_block p)"
  shows "\<exists>cs ls. p_cbs p = Some cs \<and> p_rls p = Some ls \<and> ls ! 0 = 0 \<and>
      cs ! i = col_start (p_block p) (rb (p_block p) + of_nat i) \<and>
      ls ! Suc i = ls ! i + (ce (p_block p) - cs ! i) \<and>
      (rb (p_block p) + of_nat i + 1 \<le> ce (p_block p) \<and>
       unat (ls ! i) + unat (ce (p_block p) - cs ! i) < 2 ^ 64 \<longrightarrow>
         ls ! i \<le> ls ! Suc i \<and> (ls ! i = ls ! Suc i \<longleftrightarrow> cs ! i = ce (p_block p))) \<and>
      (ce (p_block p) < rb (p_block p) + of_nat i + 1 \<and>
       unat (cs ! i - ce (p_block p)) \<le> unat (ls ! i) \<longrightarrow>
         ls ! Suc i < ls ! i)"
proof -
  let ?b = "correct_block block nb"
  let ?n = "rows_of ?b"
  let ?pl = "plan ?b (rb block) 0 ?n"
  let ?cs = "map fst ?pl @ replicate (capacity ?b - ?n) 0"
  let ?ls = "map snd ?pl @ replicate (capacity ?b - ?n) 0"
  note ps = prepare_success [OF assms(1,2)]
  have b: "p_block p = ?b" and cs: "p_cbs p = Some ?cs" and ls: "p_rls p = Some ?ls"
    by (subst ps(4), simp)+
  from assms(3) have i: "Suc i < ?n"
    by (simp add: b)
  from ps(1) have cols: "cb ?b < ce ?b"
    by (simp add: empty_region_def not_le)
  have c_i: "?cs ! i = col_start ?b (rb ?b + of_nat i)"
    using i by (simp add: nth_append plan_fst_nth)
  have l_0: "?ls ! 0 = 0"
    using i by (simp add: nth_append plan_snd_0)
  have l_i: "?ls ! Suc i = ?ls ! i + (ce ?b - ?cs ! i)"
    using i by (simp add: nth_append plan_snd_Suc)
  have up: "?ls ! i \<le> ?ls ! Suc i \<and> (?ls ! i = ?ls ! Suc i \<longleftrightarrow> ?cs ! i = ce ?b)"
    if "rb ?b + of_nat i + 1 \<le> ce ?b" and "unat (?ls ! i) + unat (ce ?b - ?cs ! i) < 2 ^ 64"
  proof -
    from cols that(1) have "?cs ! i \<le> ce ?b"
      unfolding c_i by (rule col_start_le)
    then show ?thesis
      unfolding l_i using that(2) by (rule offset_step_up)
  qed
  have down: "?ls ! Suc i < ?ls ! i"
    if "ce ?b < rb ?b + of_nat i + 1" and "unat (?cs ! i - ce ?b) \<le> unat (?ls ! i)"
  proof -
    from cols that(1) have "ce ?b < ?cs ! i"
      unfolding c_i by (rule col_start_gt)
    then show ?thesis
      unfolding l_i using that(2) by (rule offset_step_down)
  qed
  from c_i l_0 l_i up down show ?thesis
    unfolding b cs ls by blast
qed

text \<open>
  Rows 2 to 5 and columns 0 to 3 of six series: \<open>cbs\<close> is \<open>3, 4, 5, 6\<close> and \<open>rls\<close> is
  \<open>0, 1, 1, 0\<close>. From row 2 to row 3 the offset goes up by the one column of row 2; from
  row 4 to row 5, where \<open>r + 1 > ce\<close>, it goes down.
\<close>

theorem row_offsets_steps_witness:
  "dtw_distances_prepare region_length (True, True) \<lparr>rb = 2, re = 6, cb = 0, ce = 4\<rparr> 6
      \<lparr>use_ssize_t = False\<rparr> =
     Inr \<lparr>rc = 0, p_block = \<lparr>rb = 2, re = 6, cb = 0, ce = 4\<rparr>, p_cbs = Some [3, 4, 5, 6],
          p_rls = Some [0, 1, 1, 0], p_length = 1, p_live = 2\<rparr>
   \<and> Suc 2 < rows_of \<lparr>rb = 2, re = 6, cb = 0, ce = 4\<rparr>
   \<and> [0, 1, 1, 0 :: size_t] ! 0 \<le> [0, 1, 1, 0] ! Suc 0
   \<and> [0, 1, 1, 0 :: size_t] ! 0 \<noteq> [0, 1, 1, 0] ! Suc 0
   \<and> [0, 1, 1, 0 :: size_t] ! Suc 2 < [0, 1, 1, 0] ! 2"
proof -
  have p: "dtw_distances_prepare region_length (True, True) \<lparr>rb = 2, re = 6, cb = 0, ce = 4\<rparr> 6
      \<lparr>use_ssize_t = False\<rparr> =
     Inr \<lparr>rc = 0, p_block = \<lparr>rb = 2, re = 6, cb = 0, ce = 4\<rparr>, p_cbs = Some [3, 4, 5, 6],
          p_rls = Some [0, 1, 1, 0], p_length = 1, p_live = 2\<rparr>"
    by (simp add: eval_defs region_length_def pair_count_def row_count_def correct_block_def
        upt_to_numeral replicate_numeral_Cons)
  have n: "Suc 2 < rows_of \<lparr>rb = 2, re = 6, cb = 0, ce = 4\<rparr>"
    by (simp add: rows_of_def)
  then have n0: "Suc 0 < rows_of \<lparr>rb = 2, re = 6, cb = 0, ce = 4\<rparr>"
    by simp
  from row_offsets_steps [OF p, of 0] n0
  have up: "[0, 1, 1, 0 :: size_t] ! 0 \<le> [0, 1, 1, 0] ! Suc 0
        \<and> ([0, 1, 1, 0 :: size_t] ! 0 = [0, 1, 1, 0] ! Suc 0 \<longleftrightarrow> (3 :: size_t) = 4)"
    by simp
  from row_offsets_steps [OF p, of 2] n
  have down: "[0, 1, 1, 0 :: size_t] ! Suc 2 < [0, 1, 1, 0] ! 2"
    by simp
  from p n up down show ?thesis
    by simp
qed

text \<open>
  C7 as stated fails. For rows 2 to 5 and columns 0 to 3 of six series the planner
  completes with \<open>rls = 0, 1, 1, 0\<close>: rows 4 and 5 have \<open>r + 1 > ce\<close>, and the offset of row
  5 is below that of row 4. And where the running sum passes \<open>2 ^ 64\<close> the offsets fall
  too: the planning loop on rows 0 to 2 and columns 0 to \<open>2 ^ 64 - 2\<close> gives
  \<open>0, 2 ^ 64 - 2, 2 ^ 64 - 5\<close>.
\<close>

theorem row_offsets_decrease:
  "map_sum id p_rls (dtw_distances_prepare region_length (True, True)
      \<lparr>rb = 2, re = 6, cb = 0, ce = 4\<rparr> 6 \<lparr>use_ssize_t = False\<rparr>) = Inr (Some [0, 1, 1, 0])
   \<and> \<not> sorted [0, 1, 1, 0 :: size_t]
   \<and> map_sum id snd (prepare_loop \<lparr>rb = 0, re = 3, cb = 0, ce = 18446744073709551615\<rparr> 0 0 0
        (Some [0, 0, 0]) (Some [0, 0, 0])) =
       Inr (Some [0, 18446744073709551614, 18446744073709551611])
   \<and> \<not> sorted [0, 18446744073709551614, 18446744073709551611 :: size_t]"
  by (simp add: eval_defs correct_block_def replicate_numeral_Cons)

section \<open>The assignments of a run\<close>

lemma cols_loop_eq:
  assumes "n = unat (ce b) - unat c" and "unat r_i < length ls"
  shows "cols_loop val b (Some ls) r_i r c c_i st =
     Inr (apply_writes val (row_events (ls ! unat r_i) r c c_i n) (fst st),
          snd st @ row_events (ls ! unat r_i) r c c_i n)"
  using assms(1)
proof (induction n arbitrary: c c_i st)
  case 0
  then have "\<not> c < ce b"
    by (simp add: word_less_nat_alt)
  then show ?case
    by (simp add: cols_loop.simps [of val b _ r_i r c])
next
  case (Suc m)
  then have lt: "c < ce b"
    by (simp add: word_less_nat_alt)
  then have "unat (c + 1) = Suc (unat c)"
    by (rule unat_succ_less)
  with Suc.prems have m: "m = unat (ce b) - unat (c + 1)"
    by simp
  let ?k = "ls ! unat r_i + c_i"
  have "cols_loop val b (Some ls) r_i r c c_i st =
        cols_loop val b (Some ls) r_i r (c + 1) (c_i + 1)
          ((fst st)(?k := val r c), snd st @ [(?k, r, c)])"
    using lt assms(2) by (simp add: cols_loop.simps [of val b _ r_i r c])
  also have "\<dots> =
     Inr (apply_writes val (row_events (ls ! unat r_i) r (c + 1) (c_i + 1) m)
            (fst ((fst st)(?k := val r c), snd st @ [(?k, r, c)])),
          snd ((fst st)(?k := val r c), snd st @ [(?k, r, c)])
            @ row_events (ls ! unat r_i) r (c + 1) (c_i + 1) m)"
    by (rule Suc.IH [OF m])
  finally show ?case
    by simp
qed

lemma rows_loop_eq:
  assumes "m = unat (re b - rb b) - unat r_i"
    and "unat (re b - rb b) \<le> length cs" and "unat (re b - rb b) \<le> length ls"
  shows "rows_loop val b (Some cs) (Some ls) r_i st =
     Inr (apply_writes val
            (concat (map (row_writes b cs ls) [unat r_i ..< unat (re b - rb b)])) (fst st),
          snd st @ concat (map (row_writes b cs ls) [unat r_i ..< unat (re b - rb b)]))"
  using assms(1)
proof (induction m arbitrary: r_i st)
  case 0
  then have le: "unat (re b - rb b) \<le> unat r_i"
    by simp
  then have stop: "\<not> r_i < re b - rb b"
    by (simp add: word_less_nat_alt)
  from le have nil: "[unat r_i ..< unat (re b - rb b)] = []"
    by simp
  show ?case
    unfolding nil by (simp add: rows_loop.simps [of val b _ _ r_i] stop)
next
  case (Suc m)
  then have lt: "r_i < re b - rb b"
    by (simp add: word_less_nat_alt)
  then have i: "unat r_i < unat (re b - rb b)"
    by (simp add: word_less_nat_alt)
  from lt have i1: "unat (r_i + 1) = Suc (unat r_i)"
    by (rule unat_succ_less)
  with Suc.prems have m: "m = unat (re b - rb b) - unat (r_i + 1)"
    by simp
  let ?row = "row_writes b cs ls (unat r_i)"
  let ?st1 = "(apply_writes val ?row (fst st), snd st @ ?row)"
  have row: "cols_loop val b (Some ls) r_i (rb b + r_i) (cs ! unat r_i) 0 st = Inr ?st1"
    using i assms(3)
    by (subst cols_loop_eq [where n = "unat (ce b) - unat (cs ! unat r_i)"])
       (simp_all add: row_writes_def)
  have "rows_loop val b (Some cs) (Some ls) r_i st =
        rows_loop val b (Some cs) (Some ls) (r_i + 1) ?st1"
    using lt i assms(2) row by (simp add: rows_loop.simps [of val b _ _ r_i])
  also have "\<dots> =
     Inr (apply_writes val
            (concat (map (row_writes b cs ls) [unat (r_i + 1) ..< unat (re b - rb b)]))
            (fst ?st1),
          snd ?st1 @ concat (map (row_writes b cs ls) [unat (r_i + 1) ..< unat (re b - rb b)]))"
    by (rule Suc.IH [OF m])
  finally show ?case
    using i unfolding i1 by (simp add: upt_conv_Cons)
qed

lemma row_writes_prefix:
  assumes "i < length cs" and "i < length ls"
  shows "row_writes b (cs @ cs') (ls @ ls') i = row_writes b cs ls i"
  using assms by (simp add: row_writes_def nth_append)

text \<open>
  A call on a region that is not empty, both allocations succeeding: it returns what the
  length collaborator gave, with the assignments \<open>run_writes\<close> made in that order, when the
  rows are no more than the entries allocated; otherwise the planner writes past the end
  of its sequences.
\<close>

lemma distances_parallel_nonempty:
  assumes "\<not> empty_region (correct_block block nb)"
  shows "distances_parallel len (True, True) val nb output block settings =
     (let b = correct_block block nb in
      if rows_of b \<le> capacity b then
        Inr \<lparr>o_ret = len block nb (use_ssize_t settings),
             o_output = apply_writes val (run_writes b) output,
             o_block = b, o_writes = run_writes b, o_live = 0\<rparr>
      else Inl OutOfBounds)"
proof (cases "rows_of (correct_block block nb) \<le> capacity (correct_block block nb)")
  case False
  then show ?thesis
    by (simp add: distances_parallel_def prepare_nonempty [OF assms] Let_def)
next
  case True
  let ?b = "correct_block block nb"
  let ?n = "rows_of ?b"
  let ?pl = "plan ?b (rb ?b) 0 ?n"
  let ?pad = "replicate (capacity ?b - ?n) (0 :: size_t)"
  have n: "unat (re ?b - rb ?b) = ?n"
    using assms by (rule rows_of_unat)
  have "concat (map (row_writes ?b (map fst ?pl @ ?pad) (map snd ?pl @ ?pad)) [0 ..< ?n]) =
        concat (map (row_writes ?b (map fst ?pl) (map snd ?pl)) [0 ..< ?n])"
    by (intro arg_cong [where f = concat] map_cong refl row_writes_prefix) simp_all
  then have evs: "concat (map (row_writes ?b (map fst ?pl @ ?pad) (map snd ?pl @ ?pad))
                    [0 ..< ?n]) = run_writes ?b"
    by (simp only: run_writes_def)
  have "rows_loop val ?b (Some (map fst ?pl @ ?pad)) (Some (map snd ?pl @ ?pad)) 0
          (output, []) =
        Inr (apply_writes val
               (concat (map (row_writes ?b (map fst ?pl @ ?pad) (map snd ?pl @ ?pad))
                  [unat (0 :: size_t) ..< unat (re ?b - rb ?b)])) (fst (output, [] :: write_ev list)),
             snd (output, [] :: write_ev list) @
               concat (map (row_writes ?b (map fst ?pl @ ?pad) (map snd ?pl @ ?pad))
                  [unat (0 :: size_t) ..< unat (re ?b - rb ?b)]))"
    by (rule rows_loop_eq [where m = ?n]) (use True in \<open>simp_all add: n [simplified]\<close>)
  then have rl: "rows_loop val ?b (Some (map fst ?pl @ ?pad)) (Some (map snd ?pl @ ?pad)) 0
          (output, []) =
        Inr (apply_writes val (run_writes ?b) output, run_writes ?b)"
    unfolding n unsigned_0 evs fst_conv snd_conv append_Nil .
  have "distances_parallel len (True, True) val nb output block settings =
        (case rows_loop val ?b (Some (map fst ?pl @ ?pad)) (Some (map snd ?pl @ ?pad)) 0
                (output, []) of
           Inl f \<Rightarrow> Inl f
         | Inr st \<Rightarrow>
             Inr \<lparr>o_ret = len block nb (use_ssize_t settings), o_output = fst st,
                  o_block = ?b, o_writes = snd st, o_live = 0\<rparr>)"
    using True
    by (simp add: distances_parallel_def prepare_nonempty [OF assms] Let_def free_def
        cong: sum.case_cong)
  then show ?thesis
    unfolding rl using True by (simp add: Let_def)
qed

lemma row_events_map:
  "row_events base r c c_i n =
     map (\<lambda>j. (base + c_i + of_nat j, r, c + of_nat j)) [0 ..< n]"
proof (induction n arbitrary: c c_i)
  case 0
  show ?case by simp
next
  case (Suc n)
  have "map (\<lambda>j. (base + c_i + of_nat j, r, c + of_nat j)) [0 ..< Suc n] =
        (base + c_i, r, c) # map (\<lambda>j. (base + c_i + of_nat (Suc j), r, c + of_nat (Suc j)))
                               [0 ..< n]"
    by (simp only: upt_conv_Cons [of 0 "Suc n"] map_Suc_upt [symmetric] list.map map_map o_def)
       simp
  then show ?case
    by (simp add: Suc.IH add.assoc add.commute [of 1])
qed

lemma run_writes_plan_events_aux:
  "concat (map (\<lambda>i. row_events (snd (plan b r rs n ! i)) (r + of_nat i)
                       (fst (plan b r rs n ! i)) 0
                       (unat (ce b) - unat (fst (plan b r rs n ! i)))) [0 ..< n]) =
   plan_events b r rs n"
proof (induction n arbitrary: r rs)
  case 0
  show ?case by simp
next
  case (Suc n)
  let ?rs' = "rs + (ce b - col_start b r)"
  have "concat (map (\<lambda>i. row_events (snd (plan b r rs (Suc n) ! i)) (r + of_nat i)
                       (fst (plan b r rs (Suc n) ! i)) 0
                       (unat (ce b) - unat (fst (plan b r rs (Suc n) ! i)))) [0 ..< Suc n]) =
        row_events rs r (col_start b r) 0 (unat (ce b) - unat (col_start b r)) @
        concat (map (\<lambda>i. row_events (snd (plan b (r + 1) ?rs' n ! i)) (r + 1 + of_nat i)
                       (fst (plan b (r + 1) ?rs' n ! i)) 0
                       (unat (ce b) - unat (fst (plan b (r + 1) ?rs' n ! i)))) [0 ..< n])"
    by (simp only: upt_conv_Cons [of 0 "Suc n"] map_Suc_upt [symmetric] list.map map_map o_def)
       (simp add: add.assoc add.commute [of 1])
  then show ?case
    by (simp add: Suc.IH)
qed

lemma run_writes_plan_events:
  "run_writes b = plan_events b (rb b) 0 (rows_of b)"
proof -
  let ?pl = "plan b (rb b) 0 (rows_of b)"
  have "map (row_writes b (map fst ?pl) (map snd ?pl)) [0 ..< rows_of b] =
        map (\<lambda>i. row_events (snd (?pl ! i)) (rb b + of_nat i) (fst (?pl ! i)) 0
                   (unat (ce b) - unat (fst (?pl ! i)))) [0 ..< rows_of b]"
    by (rule map_cong) (simp_all add: row_writes_def)
  then show ?thesis
    by (simp only: run_writes_def run_writes_plan_events_aux)
qed

section \<open>The assignments in unbounded arithmetic\<close>

lemma unat_col_start:
  assumes "unat r + 1 < 2 ^ 64"
  shows "unat (col_start b r) = max (unat r + 1) (unat (cb b))"
proof -
  from assms have "unat (r + 1) = Suc (unat r)"
    by (intro unat_succ [of r "unat r + 1"]) simp_all
  then show ?thesis
    by (auto simp: col_start_def word_less_nat_alt max_def)
qed

lemma row_count_col_start:
  assumes "unat r + 1 < 2 ^ 64"
  shows "unat (ce b) - unat (col_start b r) = row_count b (unat r)"
  by (simp add: unat_col_start [OF assms] row_count_def)

lemma first_row_expected:
  assumes "unat r + 1 < 2 ^ 64"
  shows "row_events (of_nat k) r (col_start b r) 0 (unat (ce b) - unat (col_start b r)) =
         map (\<lambda>j. (of_nat (k + j), of_nat (unat r),
                    of_nat (max (unat r + 1) (unat (cb b)) + j)))
           [0 ..< row_count b (unat r)]"
proof -
  have cs: "col_start b r = of_nat (max (unat r + 1) (unat (cb b)))"
    by (simp only: unat_col_start [OF assms, symmetric] of_nat_unat ucast_id)
  have "map (\<lambda>j. (of_nat k + 0 + of_nat j, r, col_start b r + of_nat j))
          [0 ..< row_count b (unat r)] =
        map (\<lambda>j. (of_nat (k + j), of_nat (unat r),
                    of_nat (max (unat r + 1) (unat (cb b)) + j)))
          [0 ..< row_count b (unat r)]"
    by (subst cs) simp
  then show ?thesis
    unfolding row_events_map row_count_col_start [OF assms] .
qed

lemma plan_events_beyond:
  assumes "unat (ce b) \<le> unat r" and "unat r + n < 2 ^ 64"
  shows "plan_events b r rs n = []"
  using assms
proof (induction n arbitrary: r rs)
  case 0
  show ?case by simp
next
  case (Suc n)
  from Suc.prems(2) have r: "unat r + 1 < 2 ^ 64"
    by simp
  then have r1: "unat (r + 1) = Suc (unat r)"
    by (intro unat_succ [of r "unat r + 1"]) simp_all
  from Suc.prems(1) have "row_count b (unat r) = 0"
    by (simp add: row_count_def)
  moreover have "plan_events b (r + 1) (rs + (ce b - col_start b r)) n = []"
    using Suc.prems by (intro Suc.IH) (simp_all add: r1)
  ultimately show ?case
    by (simp add: row_count_col_start [OF r])
qed

lemma expected_beyond:
  assumes "unat (ce b) \<le> r"
  shows "expected b k r n = []"
  using assms by (induction n arbitrary: k r) (simp_all add: row_count_def)

lemma plan_events_expected:
  assumes "unat r + n < 2 ^ 64" and "cb b \<le> ce b"
  shows "plan_events b r (of_nat k) n = expected b k (unat r) n"
  using assms(1)
proof (induction n arbitrary: r k)
  case 0
  show ?case by simp
next
  case (Suc n)
  from Suc.prems have r: "unat r + 1 < 2 ^ 64"
    by simp
  then have r1: "unat (r + 1) = Suc (unat r)"
    by (intro unat_succ [of r "unat r + 1"]) simp_all
  from Suc.prems have n: "unat (r + 1) + n < 2 ^ 64"
    by (simp add: r1)
  show ?case
  proof (cases "unat r + 1 \<le> unat (ce b)")
    case True
    with assms(2) have "unat (col_start b r) \<le> unat (ce b)"
      by (simp add: unat_col_start [OF r] word_le_nat_alt)
    then have "col_start b r \<le> ce b"
      by (simp add: word_le_nat_alt)
    then have "unat (ce b - col_start b r) = row_count b (unat r)"
      by (simp add: unat_sub row_count_col_start [OF r])
    then have "ce b - col_start b r = of_nat (row_count b (unat r))"
      by (metis of_nat_unat ucast_id)
    then have "of_nat k + (ce b - col_start b r) = of_nat (k + row_count b (unat r))"
      by simp
    then have "plan_events b (r + 1) (of_nat k + (ce b - col_start b r)) n =
               expected b (k + row_count b (unat r)) (Suc (unat r)) n"
      using Suc.IH [OF n] by (simp only: r1)
    then show ?thesis
      by (simp add: first_row_expected [OF r])
  next
    case False
    then have far: "unat (ce b) \<le> unat r"
      by simp
    then have "plan_events b r (of_nat k) (Suc n) = []"
      using Suc.prems by (rule plan_events_beyond)
    moreover from far have "expected b k (unat r) (Suc n) = []"
      by (rule expected_beyond)
    ultimately show ?thesis
      by (simp only:)
  qed
qed

text \<open>
  On a region that is not empty the assignments of a run are the expected ones: the pairs
  of the region, row after row and by increasing column, stored from slot 0 on.
\<close>

lemma run_writes_expected:
  assumes "\<not> empty_region b"
  shows "run_writes b = expected b 0 (unat (rb b)) (rows_of b)"
proof -
  from assms have "rb b \<le> re b" and c: "cb b \<le> ce b"
    by (simp_all add: empty_region_def not_le less_imp_le)
  then have "unat (rb b) + rows_of b = unat (re b)"
    by (simp add: rows_of_def word_le_nat_alt)
  then have "unat (rb b) + rows_of b < 2 ^ 64"
    using unat_size_t_bound [of "re b"] by simp
  then have "plan_events b (rb b) (of_nat 0) (rows_of b) =
             expected b 0 (unat (rb b)) (rows_of b)"
    using c by (rule plan_events_expected)
  then show ?thesis
    by (simp add: run_writes_plan_events)
qed

lemma upt_shift: "[m ..< m + n] = map (\<lambda>j. m + j) [0 ..< n]"
  by (induction n) simp_all

lemma expected_slots:
  "map fst (expected b k r n) =
     map of_nat [k ..< k + sum_list (map (row_count b) [r ..< r + n])]"
proof (induction n arbitrary: k r)
  case 0
  show ?case by simp
next
  case (Suc n)
  have rows: "[r ..< r + Suc n] = r # [Suc r ..< Suc r + n]"
    by (simp add: upt_conv_Cons)
  have "map (\<lambda>j. (of_nat (k + j) :: size_t)) [0 ..< row_count b r] =
        map of_nat [k ..< k + row_count b r]"
    by (simp only: upt_shift [of k] map_map o_def)
  then have "map fst (expected b k r (Suc n)) =
        map of_nat [k ..< k + row_count b r] @
        map of_nat [k + row_count b r ..<
                    k + row_count b r + sum_list (map (row_count b) [Suc r ..< Suc r + n])]"
    by (simp add: Suc.IH o_def)
  also have "\<dots> =
        map of_nat [k ..< k + row_count b r + sum_list (map (row_count b) [Suc r ..< Suc r + n])]"
    by (simp only: map_append [symmetric] upt_add_eq_append [OF le_add1, symmetric])
  finally show ?case
    by (simp only: rows list.map sum_list.Cons add.assoc)
qed

lemma expected_pairs:
  "map snd (expected b k r n) =
     map (\<lambda>(r, c). (of_nat r, of_nat c)) (concat (map (pairs_of_row b) [r ..< r + n]))"
proof (induction n arbitrary: k r)
  case 0
  show ?case by simp
next
  case (Suc n)
  have rows: "[r ..< r + Suc n] = r # [Suc r ..< Suc r + n]"
    by (simp add: upt_conv_Cons)
  let ?m = "max (r + 1) (unat (cb b))"
  have "[?m ..< unat (ce b)] = map (\<lambda>j. ?m + j) [0 ..< row_count b r]"
  proof (cases "?m \<le> unat (ce b)")
    case True
    then have "unat (ce b) = ?m + row_count b r"
      by (simp add: row_count_def)
    then have "[?m ..< unat (ce b)] = [?m ..< ?m + row_count b r]"
      by (simp only:)
    then show ?thesis
      by (simp only: upt_shift [of ?m])
  next
    case False
    then have le: "unat (ce b) \<le> ?m"
      by linarith
    then have "row_count b r = 0"
      unfolding row_count_def by (rule diff_is_0_eq')
    moreover from le have "[?m ..< unat (ce b)] = []"
      by (rule upt_conv_Nil)
    ultimately show ?thesis
      by (simp only: upt_0 list.map)
  qed
  then have "map (\<lambda>(r, c). (of_nat r, of_nat c)) (pairs_of_row b r) =
             map (\<lambda>j. (of_nat r :: size_t, of_nat (?m + j) :: size_t)) [0 ..< row_count b r]"
    by (simp only: pairs_of_row_def map_map o_def prod.case)
  then show ?case
    by (simp only: rows expected.simps map_append list.map concat.simps Suc.IH map_map o_def
        snd_conv)
qed

lemma run_writes_slots:
  assumes "\<not> empty_region b"
  shows "map fst (run_writes b) = map of_nat [0 ..< pair_count b]"
    and "map snd (run_writes b) = map (\<lambda>(r, c). (of_nat r, of_nat c)) (region_pairs b)"
    and "length (run_writes b) = pair_count b"
proof -
  from assms have "rb b \<le> re b"
    by (simp add: empty_region_def not_le less_imp_le)
  then have rows: "unat (rb b) + rows_of b = unat (re b)"
    by (simp add: rows_of_def word_le_nat_alt)
  show slots: "map fst (run_writes b) = map of_nat [0 ..< pair_count b]"
    by (simp add: run_writes_expected [OF assms] expected_slots rows pair_count_def)
  show "map snd (run_writes b) = map (\<lambda>(r, c). (of_nat r, of_nat c)) (region_pairs b)"
    by (simp add: run_writes_expected [OF assms] expected_pairs rows region_pairs_def)
  from arg_cong [OF slots, of length] show "length (run_writes b) = pair_count b"
    by simp
qed

lemma set_pairs_of_row:
  "set (pairs_of_row b r) = {(r', c). r' = r \<and> max (r + 1) (unat (cb b)) \<le> c \<and> c < unat (ce b)}"
  by (auto simp: pairs_of_row_def)

lemma set_region_pairs:
  "set (region_pairs b) =
     {(r, c). unat (rb b) \<le> r \<and> r < unat (re b) \<and>
              max (r + 1) (unat (cb b)) \<le> c \<and> c < unat (ce b)}"
  by (auto simp: region_pairs_def set_pairs_of_row)

lemma distinct_rows_pairs:
  "distinct rs \<Longrightarrow> distinct (concat (map (pairs_of_row b) rs))"
proof (induction rs)
  case Nil
  show ?case by simp
next
  case (Cons r rs)
  have "distinct (pairs_of_row b r)"
    by (simp add: pairs_of_row_def distinct_map inj_on_def)
  moreover have "set (pairs_of_row b r) \<inter> set (concat (map (pairs_of_row b) rs)) = {}"
    using Cons.prems by (auto simp: set_pairs_of_row)
  ultimately show ?case
    using Cons by simp
qed

lemma distinct_region_pairs: "distinct (region_pairs b)"
  unfolding region_pairs_def by (rule distinct_rows_pairs) simp

lemma distinct_slots:
  assumes "n \<le> 2 ^ 64"
  shows "distinct (map of_nat [0 ..< n] :: size_t list)"
proof -
  have "inj_on (of_nat :: nat \<Rightarrow> size_t) {0 ..< n}"
  proof (rule inj_onI)
    fix x y :: nat
    assume eq: "(of_nat x :: size_t) = of_nat y"
    assume "x \<in> {0 ..< n}" and "y \<in> {0 ..< n}"
    then have "x < n" and "y < n"
      by simp_all
    with assms have x: "x < 2 ^ LENGTH(64)" and y: "y < 2 ^ LENGTH(64)"
      by simp_all
    from eq x have "unat (of_nat y :: size_t) = x"
      by (rule of_nat_inverse)
    moreover from refl y have "unat (of_nat y :: size_t) = y"
      by (rule of_nat_inverse)
    ultimately show "x = y"
      by simp
  qed
  then show ?thesis
    by (simp add: distinct_map)
qed

section \<open>A run that completes\<close>

text \<open>
  A call on a region that is not empty completes only when both allocations succeed and
  the planner stays inside its sequences; its assignments are then \<open>run_writes\<close>.
\<close>

lemma completed_run:
  assumes "distances_parallel len mallocs val nb output block settings = Inr res"
    and "\<not> empty_region (correct_block block nb)"
  shows "mallocs = (True, True)"
    and "rows_of (correct_block block nb) \<le> capacity (correct_block block nb)"
    and "res = \<lparr>o_ret = len block nb (use_ssize_t settings),
               o_output = apply_writes val (run_writes (correct_block block nb)) output,
               o_block = correct_block block nb,
               o_writes = run_writes (correct_block block nb), o_live = 0\<rparr>"
proof -
  let ?b = "correct_block block nb"
  have "fst mallocs \<and> snd mallocs"
  proof (rule ccontr)
    assume "\<not> (fst mallocs \<and> snd mallocs)"
    with assms(2) obtain f where "dtw_distances_prepare len mallocs block nb settings = Inl f"
      using prepare_alloc_failure by blast
    with assms(1) show False
      by (simp add: distances_parallel_def)
  qed
  then show m: "mallocs = (True, True)"
    by (cases mallocs) simp
  from assms(1) show c: "rows_of ?b \<le> capacity ?b"
    unfolding m distances_parallel_nonempty [OF assms(2)] Let_def by (simp split: if_splits)
  from assms(1) show "res = \<lparr>o_ret = len block nb (use_ssize_t settings),
               o_output = apply_writes val (run_writes ?b) output, o_block = ?b,
               o_writes = run_writes ?b, o_live = 0\<rparr>"
    unfolding m distances_parallel_nonempty [OF assms(2)] Let_def using c by simp
qed

text \<open>
  The assignments of the row at position \<open>i\<close>, in terms of the two planner sequences: the
  columns from \<open>cbs[i]\<close> on in increasing order, column \<open>c\<close> stored at
  \<open>rls[i] + (c - cbs[i])\<close>; \<open>cbs[i]\<close> is \<open>max (r + 1) cb\<close>.
\<close>

lemma row_writes_index:
  "row_writes b cs ls i =
     map (\<lambda>c. (ls ! i + (c - cs ! i), rb b + of_nat i, c))
       (map (\<lambda>j. cs ! i + of_nat j) [0 ..< unat (ce b) - unat (cs ! i)])"
  by (simp add: row_writes_def row_events_map o_def)

lemma planned_col_start:
  assumes "i < rows_of b" and "\<not> empty_region b"
  shows "map fst (plan b (rb b) 0 (rows_of b)) ! i = col_start b (rb b + of_nat i)"
    and "unat (col_start b (rb b + of_nat i)) = max (unat (rb b) + i + 1) (unat (cb b))"
proof -
  from assms(1) show "map fst (plan b (rb b) 0 (rows_of b)) ! i = col_start b (rb b + of_nat i)"
    by (simp add: plan_fst_nth)
  from assms(2) have "rb b \<le> re b"
    by (simp add: empty_region_def not_le less_imp_le)
  with assms(1) have lt: "unat (rb b) + i < unat (re b)"
    by (simp add: rows_of_def word_le_nat_alt)
  then have small: "unat (rb b) + i < 2 ^ LENGTH(64)"
    using unat_size_t_bound [of "re b"] by simp
  then have "unat (rb b) + unat (of_nat i :: size_t) < 2 ^ LENGTH(64)"
    by (simp add: unat_of_nat)
  then have "unat (rb b + of_nat i) = unat (rb b) + unat (of_nat i :: size_t)"
    by (simp only: unat_add_lem)
  moreover from small have "unat (of_nat i :: size_t) = i"
    by (intro of_nat_inverse [OF refl]) simp
  ultimately have r: "unat (rb b + of_nat i) = unat (rb b) + i"
    by simp
  from lt have "unat (rb b + of_nat i) + 1 < 2 ^ 64"
    using unat_size_t_bound [of "re b"] by (simp add: r)
  from unat_col_start [OF this]
  show "unat (col_start b (rb b + of_nat i)) = max (unat (rb b) + i + 1) (unat (cb b))"
    by (simp add: r)
qed

text \<open>
  The slots and the pairs of a completed run: pair number \<open>k\<close> of the region, counted row
  after row and by increasing column, is stored in slot \<open>k\<close>. The pairs are those of the
  strict upper triangle inside the region, each once; the slots are all different as long
  as the count of pairs does not exceed \<open>2 ^ 64\<close>.
\<close>

lemma completed_run_slots:
  assumes "distances_parallel len mallocs val nb output block settings = Inr res"
    and "\<not> empty_region (correct_block block nb)"
  shows "map fst (o_writes res) = map of_nat [0 ..< pair_count (correct_block block nb)]"
    and "map snd (o_writes res) =
           map (\<lambda>(r, c). (of_nat r, of_nat c)) (region_pairs (correct_block block nb))"
    and "length (o_writes res) = pair_count (correct_block block nb)"
    and "pair_count (correct_block block nb) \<le> 2 ^ 64 \<Longrightarrow> distinct (map fst (o_writes res))"
proof -
  let ?b = "correct_block block nb"
  have w: "o_writes res = run_writes ?b"
    by (subst completed_run(3) [OF assms]) simp
  show "map fst (o_writes res) = map of_nat [0 ..< pair_count ?b]"
    and "map snd (o_writes res) = map (\<lambda>(r, c). (of_nat r, of_nat c)) (region_pairs ?b)"
    and "length (o_writes res) = pair_count ?b"
    unfolding w by (rule run_writes_slots [OF assms(2)])+
  show "distinct (map fst (o_writes res))" if "pair_count ?b \<le> 2 ^ 64"
    unfolding w run_writes_slots(1) [OF assms(2)] using that by (rule distinct_slots)
qed

lemma region_pairs_upper:
  "(r, c) \<in> set (region_pairs b) \<Longrightarrow> r < c"
  by (auto simp: set_region_pairs)

text \<open>
  The visits of a completed run, in the terms of the design: there are two sequences
  \<open>cs\<close> and \<open>ls\<close> with one entry per row, \<open>cs[i]\<close> being \<open>max (r + 1) cb\<close> for the row \<open>r\<close> at
  position \<open>i\<close>, and the run assigns, row after row, the columns \<open>cs[i]\<close> to \<open>ce - 1\<close> in
  increasing order, column \<open>c\<close> at index \<open>ls[i] + (c - cs[i])\<close>.
\<close>

lemma completed_run_visits:
  assumes "distances_parallel len mallocs val nb output block settings = Inr res"
    and "\<not> empty_region (correct_block block nb)"
  shows "\<exists>cs ls. length cs = rows_of (correct_block block nb) \<and>
      length ls = rows_of (correct_block block nb) \<and>
      (\<forall>i < rows_of (correct_block block nb).
         unat (cs ! i) = max (unat (rb block) + i + 1) (unat (cb block))) \<and>
      o_writes res =
        concat (map (\<lambda>i. map (\<lambda>c. (ls ! i + (c - cs ! i), rb block + of_nat i, c))
                           (map (\<lambda>j. cs ! i + of_nat j)
                              [0 ..< unat (ce (correct_block block nb)) - unat (cs ! i)]))
                  [0 ..< rows_of (correct_block block nb)])"
proof -
  let ?b = "correct_block block nb"
  let ?cs = "map fst (plan ?b (rb ?b) 0 (rows_of ?b))"
  let ?ls = "map snd (plan ?b (rb ?b) 0 (rows_of ?b))"
  have w: "o_writes res = run_writes ?b"
    by (subst completed_run(3) [OF assms]) simp
  have "\<forall>i < rows_of ?b. unat (?cs ! i) = max (unat (rb block) + i + 1) (unat (cb block))"
    using planned_col_start [OF _ assms(2)] by simp
  moreover have "o_writes res =
        concat (map (\<lambda>i. map (\<lambda>c. (?ls ! i + (c - ?cs ! i), rb block + of_nat i, c))
                           (map (\<lambda>j. ?cs ! i + of_nat j)
                              [0 ..< unat (ce ?b) - unat (?cs ! i)]))
                  [0 ..< rows_of ?b])"
    unfolding w run_writes_def row_writes_index by simp
  moreover have "length ?cs = rows_of ?b" and "length ?ls = rows_of ?b"
    by simp_all
  ultimately show ?thesis
    by blast
qed

section \<open>Regions with more rows than columns\<close>

text \<open>
  C1. Each entry point is to visit, for each row \<open>r\<close> of a normalized region that is not
  empty, the columns from \<open>max (r + 1) cb\<close> to \<open>ce - 1\<close> in increasing order, and to store
  the value of the pair \<open>(r, c)\<close> at \<open>rls[r - rb] + (c - cbs[r - rb])\<close>. A run that completes
  does so (\<open>completed_run_visits\<close>, \<open>completed_run_slots\<close>), and for the full
  region of four series the six pairs go to slots 0 to 5 as the spec's scenario lists them.
  But on rows 0 to 3 and columns 0 and 1 of four series, where the pair \<open>(0, 1)\<close> is to be
  visited, none of the four entry points visits anything: the planner, whose sequences
  hold two entries, writes \<open>cbs[2]\<close> past the end.
\<close>

theorem tall_region_is_not_visited:
  "map_sum id o_writes
     (dtw_distances_ptrs_parallel len (True, True) dtw_distance ptrs 4 lengths output
        \<lparr>rb = 0, re = 0, cb = 0, ce = 0\<rparr> settings) =
     Inr [(0, 0, 1), (1, 0, 2), (2, 0, 3), (3, 1, 2), (4, 1, 3), (5, 2, 3)]
   \<and> region_pairs \<lparr>rb = 0, re = 4, cb = 0, ce = 2\<rparr> = [(0, 1)]
   \<and> dtw_distances_ptrs_parallel len (True, True) dtw_distance ptrs 4 lengths output
        \<lparr>rb = 0, re = 4, cb = 0, ce = 2\<rparr> settings = Inl OutOfBounds
   \<and> dtw_distances_ndim_ptrs_parallel len (True, True) dtw_distance_ndim ptrs 4 lengths ndim
        output \<lparr>rb = 0, re = 4, cb = 0, ce = 2\<rparr> settings = Inl OutOfBounds
   \<and> dtw_distances_matrix_parallel len (True, True) dtw_distance matrix 4 nb_cols output
        \<lparr>rb = 0, re = 4, cb = 0, ce = 2\<rparr> settings = Inl OutOfBounds
   \<and> dtw_distances_ndim_matrix_parallel len (True, True) dtw_distance_ndim matrix 4 nb_cols
        ndim output \<lparr>rb = 0, re = 4, cb = 0, ce = 2\<rparr> settings = Inl OutOfBounds"
  by (simp add: entry_defs eval_defs region_pairs_def pairs_of_row_def upt_to_numeral
      replicate_numeral_Cons Let_def)

text \<open>
  C2. Each entry point is to return the number of pairs of a valid region, the sum over
  its rows of \<open>max (0, ce - max (r + 1) cb)\<close>. A run that completes returns what
  \<open>dtw_distances_length\<close> gave for the block as passed, which with the collaborator of the
  spec is that number as a \<open>size_t\<close>, and it makes that many assignments
  (\<open>completed_run\<close>, \<open>completed_run_slots\<close>). But on the region given as \<open>(0, 0, 2, 0)\<close> for
  three series, rows 0 to 2 and column 2, which has 2 pairs, no length is returned: the
  planner, whose sequences hold one entry, writes \<open>cbs[1]\<close> past the end.
\<close>

theorem tall_region_returns_no_length:
  "correct_block \<lparr>rb = 0, re = 0, cb = 2, ce = 0\<rparr> 3 = \<lparr>rb = 0, re = 3, cb = 2, ce = 3\<rparr>
   \<and> pair_count \<lparr>rb = 0, re = 3, cb = 2, ce = 3\<rparr> = 2
   \<and> region_length \<lparr>rb = 0, re = 0, cb = 2, ce = 0\<rparr> 3 False = 2
   \<and> dtw_distances_ptrs_parallel region_length (True, True) dtw_distance ptrs 3 lengths output
        \<lparr>rb = 0, re = 0, cb = 2, ce = 0\<rparr> settings = Inl OutOfBounds
   \<and> dtw_distances_ndim_ptrs_parallel region_length (True, True) dtw_distance_ndim ptrs 3
        lengths ndim output \<lparr>rb = 0, re = 0, cb = 2, ce = 0\<rparr> settings = Inl OutOfBounds
   \<and> dtw_distances_matrix_parallel region_length (True, True) dtw_distance matrix 3 nb_cols
        output \<lparr>rb = 0, re = 0, cb = 2, ce = 0\<rparr> settings = Inl OutOfBounds
   \<and> dtw_distances_ndim_matrix_parallel region_length (True, True) dtw_distance_ndim matrix 3
        nb_cols ndim output \<lparr>rb = 0, re = 0, cb = 2, ce = 0\<rparr> settings = Inl OutOfBounds"
  by (simp add: entry_defs eval_defs region_length_def pair_count_def row_count_def
      correct_block_def upt_to_numeral replicate_numeral_Cons Let_def)

text \<open>
  C4. On a valid region every pair \<open>(r, c)\<close> with \<open>rb \<le> r < re\<close> and
  \<open>max (r + 1) cb \<le> c < ce\<close> is to be written to exactly one slot of the output, no pair
  with \<open>c \<le> r\<close> to any, the slices of the rows being disjoint and covering the buffer. A run
  that completes does so as long as the pairs are no more than \<open>2 ^ 64\<close>: pair number \<open>k\<close>
  goes to slot \<open>k\<close> (\<open>completed_run_slots\<close>, \<open>set_region_pairs\<close>, \<open>distinct_region_pairs\<close>,
  \<open>region_pairs_upper\<close>). But on rows 0 to 3 and columns 2 to 4 of five series, which has
  nine pairs, no slot is written: the planner, whose sequences hold three entries, writes
  \<open>cbs[3]\<close> past the end.
\<close>

theorem tall_region_writes_no_slot:
  "region_pairs \<lparr>rb = 0, re = 4, cb = 2, ce = 5\<rparr> =
     [(0, 2), (0, 3), (0, 4), (1, 2), (1, 3), (1, 4), (2, 3), (2, 4), (3, 4)]
   \<and> dtw_distances_ptrs_parallel len (True, True) dtw_distance ptrs 5 lengths output
        \<lparr>rb = 0, re = 4, cb = 2, ce = 5\<rparr> settings = Inl OutOfBounds
   \<and> dtw_distances_ndim_ptrs_parallel len (True, True) dtw_distance_ndim ptrs 5 lengths ndim
        output \<lparr>rb = 0, re = 4, cb = 2, ce = 5\<rparr> settings = Inl OutOfBounds
   \<and> dtw_distances_matrix_parallel len (True, True) dtw_distance matrix 5 nb_cols output
        \<lparr>rb = 0, re = 4, cb = 2, ce = 5\<rparr> settings = Inl OutOfBounds
   \<and> dtw_distances_ndim_matrix_parallel len (True, True) dtw_distance_ndim matrix 5 nb_cols
        ndim output \<lparr>rb = 0, re = 4, cb = 2, ce = 5\<rparr> settings = Inl OutOfBounds"
  by (simp add: entry_defs eval_defs region_pairs_def pairs_of_row_def upt_to_numeral
      replicate_numeral_Cons Let_def)

section \<open>The length query\<close>

lemma prepare_len_cong:
  "len block nb (use_ssize_t settings) = len' block nb (use_ssize_t settings)
   \<Longrightarrow> dtw_distances_prepare len mallocs block nb settings =
       dtw_distances_prepare len' mallocs block nb settings"
  by (simp add: dtw_distances_prepare_def)

text \<open>
  Every call of the preparation step and of the body of the computers, whatever the region
  and whether or not the allocations succeed.
\<close>

lemma prepare_total:
  "dtw_distances_prepare len mallocs block nb settings =
     prepare_result (len block nb (use_ssize_t settings)) mallocs (correct_block block nb)"
proof (cases "empty_region (correct_block block nb)")
  case True
  then show ?thesis
    by (simp add: prepare_unfold prepare_result_def)
next
  case ne: False
  let ?b = "correct_block block nb"
  from ne have lt: "rb ?b < re ?b"
    by (simp add: empty_region_def not_le)
  obtain m1 m2 where m: "mallocs = (m1, m2)"
    by (cases mallocs)
  have none: "prepare_loop ?b (rb block) 0 0 None rls = Inl NullDeref" for rls
    using lt by (simp add: prepare_loop.simps [of ?b "rb block"] Let_def)
  have nil: "prepare_loop ?b (rb block) 0 0 (Some []) rls = Inl OutOfBounds" for rls
    using lt by (simp add: prepare_loop.simps [of ?b "rb block"] Let_def)
  have snd_none: "prepare_loop ?b (rb block) 0 0 (Some (replicate (capacity ?b) 0)) None =
      Inl NullDeref" if "capacity ?b \<noteq> 0"
    using lt that by (simp add: prepare_loop.simps [of ?b "rb block"] Let_def)
  have cap: "malloc True (sizeof_size_t * (ce ?b - cb block)) = Some (replicate (capacity ?b) 0)"
    using malloc_capacity [of ?b] by simp
  show ?thesis
  proof (cases m1)
    case False
    with ne none show ?thesis
      unfolding m
      by (simp add: prepare_unfold prepare_result_def planner_fault_def malloc_def [of False]
          Let_def)
  next
    case m1: True
    show ?thesis
    proof (cases "capacity ?b = 0")
      case True
      with ne m1 nil show ?thesis
        unfolding m
        by (simp add: prepare_unfold prepare_result_def planner_fault_def cap Let_def)
    next
      case c0: False
      show ?thesis
      proof (cases m2)
        case False
        with ne m1 c0 snd_none show ?thesis
          unfolding m
          by (simp add: prepare_unfold prepare_result_def planner_fault_def cap
              malloc_def [of False] Let_def)
      next
        case True
        with ne m1 c0 show ?thesis
          unfolding m
          by (simp add: prepare_nonempty prepare_result_def planner_fault_def Let_def)
      qed
    qed
  qed
qed

lemma distances_parallel_total:
  "distances_parallel len mallocs val nb output block settings =
     run_result (len block nb (use_ssize_t settings)) mallocs val output
       (correct_block block nb)"
proof (cases "empty_region (correct_block block nb)")
  case True
  then show ?thesis
    by (simp add: distances_parallel_empty run_result_def)
next
  case ne: False
  show ?thesis
  proof (cases "planner_fault mallocs (correct_block block nb)")
    case (Some f)
    with ne show ?thesis
      by (simp add: distances_parallel_def prepare_total prepare_result_def run_result_def)
  next
    case None
    then have "mallocs = (True, True)"
      and "rows_of (correct_block block nb) \<le> capacity (correct_block block nb)"
      by (cases mallocs; simp add: planner_fault_def split: if_splits)+
    with ne None show ?thesis
      by (simp add: distances_parallel_nonempty run_result_def Let_def)
  qed
qed

lemma plan_numeral:
  "plan b r rs (numeral k) =
     (col_start b r, rs) # plan b (r + 1) (rs + (ce b - col_start b r)) (pred_numeral k)"
  by (simp add: numeral_eq_Suc)

lemma row_events_numeral:
  "row_events base r c c_i (numeral k) =
     (base + c_i, r, c) # row_events base r (c + 1) (c_i + 1) (pred_numeral k)"
  by (simp add: numeral_eq_Suc)

lemmas spec_defs = prepare_result_def run_result_def planner_fault_def empty_region_def
  capacity_def rows_of_def sizeof_size_t_def run_writes_def row_writes_def col_start_def
  plan_numeral row_events_numeral

text \<open>
  C10. The preparation step calls \<open>dtw_distances_length\<close> on the block as the caller passed
  it, before lines 35 to 40 replace the zero ends, while the planning loop and the loops of
  the four computers run on the block after defaulting. For every call, of the preparation
  step and of each of the four entry points: the collaborator enters the result only
  through its value at the raw block, which is the length handed back when the call
  returns on a region that is not empty; the block left behind, the emptiness test, the
  planner sequences, the fault of the planner if there is one, the assignments to the
  output and the metric calls made are those of the defaulted block.
\<close>

theorem length_queried_on_raw_block:
  "dtw_distances_prepare len mallocs block nb settings =
     prepare_result (len block nb (use_ssize_t settings)) mallocs (correct_block block nb)
   \<and> dtw_distances_ptrs_parallel len mallocs dtw_distance ptrs nb lengths output block
       settings =
     run_result (len block nb (use_ssize_t settings)) mallocs
       (\<lambda>r c. dtw_distance (ptrs r) (lengths r) (ptrs c) (lengths c) settings)
       output (correct_block block nb)
   \<and> dtw_distances_ndim_ptrs_parallel len mallocs dtw_distance_ndim ptrs nb lengths ndim
       output_ndim block settings =
     run_result (len block nb (use_ssize_t settings)) mallocs
       (\<lambda>r c. dtw_distance_ndim (ptrs r) (lengths r) (ptrs c) (lengths c) ndim settings)
       output_ndim (correct_block block nb)
   \<and> dtw_distances_matrix_parallel len mallocs dtw_distance matrix nb nb_cols output block
       settings =
     run_result (len block nb (use_ssize_t settings)) mallocs
       (\<lambda>r c. dtw_distance (matrix + r * nb_cols) nb_cols (matrix + c * nb_cols) nb_cols
                 settings)
       output (correct_block block nb)
   \<and> dtw_distances_ndim_matrix_parallel len mallocs dtw_distance_ndim matrix nb nb_cols ndim
       output_ndim block settings =
     run_result (len block nb (use_ssize_t settings)) mallocs
       (\<lambda>r c. dtw_distance_ndim (matrix + r * nb_cols * word_of_int ndim) nb_cols
                 (matrix + c * nb_cols * word_of_int ndim) nb_cols ndim settings)
       output_ndim (correct_block block nb)"
  unfolding entry_defs
  by (intro conjI prepare_total distances_parallel_total)


text \<open>
  A collaborator that returns \<open>re + 10\<close> of the block it is given, on \<open>(0, 0, 0, 0)\<close> and
  two series of three elements at address 100, the metric being the sum of its two
  addresses: the length handed back is 10, from the raw \<open>re = 0\<close>, while the planner and
  the loops of each of the four entry points ran on \<open>(0, 2, 0, 2)\<close>, where the value of the
  pair \<open>(0, 1)\<close> goes to slot 0.
\<close>

theorem length_queried_on_raw_block_witness:
  "dtw_distances_prepare (\<lambda>b n f. re b + 10) (True, True) \<lparr>rb = 0, re = 0, cb = 0, ce = 0\<rparr> 2
      \<lparr>use_ssize_t = False\<rparr> =
     Inr \<lparr>rc = 0, p_block = \<lparr>rb = 0, re = 2, cb = 0, ce = 2\<rparr>, p_cbs = Some [1, 2],
          p_rls = Some [0, 1], p_length = 10, p_live = 2\<rparr>
   \<and> map_sum id (\<lambda>res. (o_ret res, o_output res 0, o_writes res, o_block res))
       (dtw_distances_ptrs_parallel (\<lambda>b n f. re b + 10) (True, True) (\<lambda>p l q m s. p + q)
          (\<lambda>i. 100 + i * 3) 2 (\<lambda>i. 3) (\<lambda>k. 0) \<lparr>rb = 0, re = 0, cb = 0, ce = 0\<rparr>
          \<lparr>use_ssize_t = False\<rparr>) =
       Inr (10, 203, [(0, 0, 1)], \<lparr>rb = 0, re = 2, cb = 0, ce = 2\<rparr>)
   \<and> map_sum id (\<lambda>res. (o_ret res, o_output res 0, o_writes res, o_block res))
       (dtw_distances_ndim_ptrs_parallel (\<lambda>b n f. re b + 10) (True, True)
          (\<lambda>p l q m d s. p + q) (\<lambda>i. 100 + i * 3) 2 (\<lambda>i. 3) 2 (\<lambda>k. 0)
          \<lparr>rb = 0, re = 0, cb = 0, ce = 0\<rparr> \<lparr>use_ssize_t = False\<rparr>) =
       Inr (10, 203, [(0, 0, 1)], \<lparr>rb = 0, re = 2, cb = 0, ce = 2\<rparr>)
   \<and> map_sum id (\<lambda>res. (o_ret res, o_output res 0, o_writes res, o_block res))
       (dtw_distances_matrix_parallel (\<lambda>b n f. re b + 10) (True, True) (\<lambda>p l q m s. p + q)
          100 2 3 (\<lambda>k. 0) \<lparr>rb = 0, re = 0, cb = 0, ce = 0\<rparr> \<lparr>use_ssize_t = False\<rparr>) =
       Inr (10, 203, [(0, 0, 1)], \<lparr>rb = 0, re = 2, cb = 0, ce = 2\<rparr>)
   \<and> map_sum id (\<lambda>res. (o_ret res, o_output res 0, o_writes res, o_block res))
       (dtw_distances_ndim_matrix_parallel (\<lambda>b n f. re b + 10) (True, True)
          (\<lambda>p l q m d s. p + q) 100 2 3 2 (\<lambda>k. 0) \<lparr>rb = 0, re = 0, cb = 0, ce = 0\<rparr>
          \<lparr>use_ssize_t = False\<rparr>) =
       Inr (10, 206, [(0, 0, 1)], \<lparr>rb = 0, re = 2, cb = 0, ce = 2\<rparr>)"
  using length_queried_on_raw_block [of "\<lambda>b n f. re b + 10" "(True, True)"
      "\<lparr>rb = 0, re = 0, cb = 0, ce = 0\<rparr>" 2 "\<lparr>use_ssize_t = False\<rparr>"
      "\<lambda>p l q m s. p + q" "\<lambda>i. 100 + i * 3" "\<lambda>i. 3" "\<lambda>k. 0"
      "\<lambda>p l q m d s. p + q" 2 "\<lambda>k. 0" 100 3]
  by (simp add: spec_defs correct_block_def upt_to_numeral replicate_numeral_Cons)

end
